theory Spec2Isabelle
  imports Complex_Main
begin

section \<open>Segment statistics of \<open>deepdecoder/mask_loss.py\<close>\<close>

text \<open>
  The module partitions the pixels of a batch of images by a label map and computes, per
  class and per image, the count, the sum and the sum of squares of the pixel values. It has
  an accelerated operator (\<open>SplitMask\<close>, with its gradient operator \<open>SplitMaskGrad\<close>) and a
  reference implementation (\<open>theano_split_mask\<close>), followed by \<open>split_to_mean_var\<close>.

  Conventions of the embedding:
  \<^item> an array is its shape together with an indexing function; indices are lists of naturals,
    one entry per axis;
  \<^item> 32-bit floating-point values are idealised as real numbers, so rounding, NaN and
    infinities are outside the model;
  \<^item> every \<open>raise\<close> and every failing \<open>assert\<close> is a value \<open>Inl e\<close> of the result.
\<close>

subsection \<open>Errors, element types, arrays\<close>

datatype error = AssertionError | IndexError | ValueError | TypeError | ZeroDivisionError

datatype dtype = Float32 | Float64 | Int8 | Int32 | Int64

record tensor =
  shape :: "nat list"
  elem :: "nat list \<Rightarrow> real"

text \<open>A symbolic variable of the graph: the element type it declares and the array it holds.\<close>

type_synonym variable = "dtype \<times> tensor"

text \<open>An upstream gradient is either structurally absent or an array.\<close>

datatype og = DisconnectedType | Connected tensor

text \<open>All index lists of an array of the given shape, in row-major order.\<close>

fun indices :: "nat list \<Rightarrow> nat list list" where
  "indices [] = [[]]"
| "indices (n # ns) = concat (map (\<lambda>i. map ((#) i) (indices ns)) [0..<n])"

definition in_bounds :: "nat list \<Rightarrow> nat list \<Rightarrow> bool" where
  "in_bounds shp p = (length p = length shp \<and> list_all2 (<) p shp)"

definition zeros :: "nat list \<Rightarrow> tensor" where
  "zeros shp = \<lparr>shape = shp, elem = (\<lambda>p. 0)\<rparr>"

definition zeros_like :: "tensor \<Rightarrow> tensor" where
  "zeros_like t = zeros (shape t)"

text \<open>\<open>t[lo:hi]\<close>, a slice along the first axis (Python clamps both ends to the length).\<close>

definition slice0 :: "nat \<Rightarrow> nat \<Rightarrow> tensor \<Rightarrow> tensor" where
  "slice0 lo hi t =
     (let n = hd (shape t); l = min lo n; h = min hi n
      in \<lparr>shape = (h - l) # tl (shape t),
          elem = (\<lambda>p. case p of [] \<Rightarrow> 0 | i # q \<Rightarrow> elem t ((l + i) # q))\<rparr>)"

text \<open>Sequencing of steps that may raise, Python's \<open>assert\<close>, and list indexing.\<close>

definition bindE :: "error + 'a \<Rightarrow> ('a \<Rightarrow> error + 'b) \<Rightarrow> error + 'b" where
  "bindE r f = (case r of Inl e \<Rightarrow> Inl e | Inr x \<Rightarrow> f x)"

definition py_assert :: "bool \<Rightarrow> error + unit" where
  "py_assert c = (if c then Inr () else Inl AssertionError)"

definition list_get :: "'a list \<Rightarrow> nat \<Rightarrow> error + 'a" where
  "list_get xs i = (if i < length xs then Inr (xs ! i) else Inl IndexError)"

subsection \<open>Shape check and buffers\<close>

text \<open>
  \<open>shape_ok\<close> reads \<open>shp[2]\<close> and \<open>shp[3]\<close> first, so a shape of fewer than four axes raises
  \<open>IndexError\<close>; axes beyond the fourth are never looked at.
\<close>

definition shape_ok :: "nat list \<Rightarrow> error + bool" where
  "shape_ok shp =
     (if length shp < 4 then Inl IndexError
      else Inr (shp ! 2 = shp ! 3 \<and> shp ! 2 mod 2 = 0 \<and> shp ! 1 = 1))"

text \<open>
  \<open>contiguouse\<close> converts a variable to a device variable and makes its memory contiguous.
  Device variables hold 32-bit floats only: the conversion raises \<open>TypeError\<close> for any other
  element type. The embedding has no memory layout, so a 32-bit float variable is returned
  as it is.
\<close>

definition contiguouse :: "variable \<Rightarrow> error + variable" where
  "contiguouse x = (if fst x \<noteq> Float32 then Inl TypeError else Inr x)"

text \<open>
  \<open>pycuda_zeros\<close>: a fresh zero array when there is no buffer of the wanted shape, the old
  buffer cleared otherwise.
\<close>

definition pycuda_zeros :: "tensor option \<Rightarrow> nat list \<Rightarrow> tensor" where
  "pycuda_zeros arr shp =
     (case arr of
        None \<Rightarrow> zeros shp
      | Some a \<Rightarrow> if shape a \<noteq> shp then zeros shp else a\<lparr>elem := (\<lambda>p. 0)\<rparr>)"

text \<open>\<open>math.ceil(a / b)\<close> on non-negative integers; a zero divisor raises.\<close>

definition ceil_div :: "nat \<Rightarrow> nat \<Rightarrow> error + nat" where
  "ceil_div a b = (if b = 0 then Inl ZeroDivisionError else Inr ((a + b - 1) div b))"

subsection \<open>The gradient operator \<open>SplitMaskGrad\<close>\<close>

record SplitMaskGrad =
  connected :: "string list"
  function_name :: string

definition SplitMaskGrad_init :: "string list option \<Rightarrow> error + SplitMaskGrad" where
  "SplitMaskGrad_init conn =
     (let c = (case conn of None \<Rightarrow> [''sum'', ''pow''] | Some c' \<Rightarrow> c')
      in if ''sum'' \<in> set c \<and> ''pow'' \<in> set c
           then Inr \<lparr>connected = c, function_name = ''image_mask_split_grad_sum_pow''\<rparr>
         else if ''sum'' \<in> set c
           then Inr \<lparr>connected = c, function_name = ''image_mask_split_grad_sum''\<rparr>
         else if ''pow'' \<in> set c
           then Inr \<lparr>connected = c, function_name = ''image_mask_split_grad_pow''\<rparr>
         else Inl ValueError)"

text \<open>
  \<open>make_node\<close> returns the inputs of the new graph node: the label map, the image and the
  upstream gradients that are present, in this order.
\<close>

definition SplitMaskGrad_make_node :: "tensor \<Rightarrow> tensor \<Rightarrow> og \<Rightarrow> og \<Rightarrow> error + tensor list" where
  "SplitMaskGrad_make_node mask_idx img og_sum og_pow =
     (if og_sum = DisconnectedType \<and> og_pow = DisconnectedType then Inl ValueError
      else Inr ([mask_idx, img]
                @ (case og_sum of DisconnectedType \<Rightarrow> [] | Connected g \<Rightarrow> [g])
                @ (case og_pow of DisconnectedType \<Rightarrow> [] | Connected g \<Rightarrow> [g])))"

text \<open>
  The launch geometry handed to a device function: grid and block, three extents each.
\<close>

type_synonym launch = "(nat \<times> nat \<times> nat) \<times> (nat \<times> nat \<times> nat)"

text \<open>
  A device function of the gradient operator receives the label map, the image, the upstream
  gradients of its mode, the batch size, the side length, the zero-filled output buffer and
  the launch geometry, and yields the contents of the output buffer. The batch size and the
  side length are handed over as 32-bit integers; the extents of an array in memory fit, and
  the embedding hands over the naturals.
\<close>

type_synonym grad_kernel =
  "tensor \<Rightarrow> tensor \<Rightarrow> tensor list \<Rightarrow> nat \<Rightarrow> nat \<Rightarrow> tensor \<Rightarrow> launch \<Rightarrow> (nat list \<Rightarrow> real)"

text \<open>
  The thunk of a gradient node: it takes the compiled module, the operator, the inputs of the
  node and the output buffer of the previous call, and returns the gradient of the image.
\<close>

definition SplitMaskGrad_thunk ::
  "(string \<Rightarrow> grad_kernel) \<Rightarrow> SplitMaskGrad \<Rightarrow> tensor list \<Rightarrow> tensor option \<Rightarrow> error + tensor" where
  "SplitMaskGrad_thunk get_function self inputs grad0 =
     (let image_mask_split_grad = get_function (function_name self) in
      bindE (list_get inputs 0) (\<lambda>mask_idx.
      bindE (shape_ok (shape mask_idx)) (\<lambda>ok1.
      bindE (py_assert ok1) (\<lambda>_.
      let s = shape mask_idx ! 3; block_dim = min 32 s in
      bindE (ceil_div s block_dim) (\<lambda>grid_dim.
      bindE (list_get inputs 1) (\<lambda>img.
      bindE (shape_ok (shape img)) (\<lambda>ok2.
      bindE (py_assert ok2) (\<lambda>_.
      let batch_size = min (shape mask_idx ! 0) (shape img ! 0);
          grad_shape = [batch_size, 1, s, s];
          grad = pycuda_zeros grad0 grad_shape;
          grid = (batch_size, grid_dim, grid_dim);
          block = (1, block_dim, block_dim)
      in
      if ''sum'' \<in> set (connected self) \<and> ''pow'' \<in> set (connected self) then
        bindE (list_get inputs 2) (\<lambda>og_sum.
        bindE (list_get inputs 3) (\<lambda>og_pow.
        Inr (grad\<lparr>elem := image_mask_split_grad mask_idx img [og_sum, og_pow]
                             batch_size s grad (grid, block)\<rparr>)))
      else if ''sum'' \<in> set (connected self) then
        bindE (list_get inputs 2) (\<lambda>og_sum.
        Inr (grad\<lparr>elem := image_mask_split_grad mask_idx img [og_sum]
                             batch_size s grad (grid, block)\<rparr>))
      else if ''pow'' \<in> set (connected self) then
        bindE (list_get inputs 2) (\<lambda>og_pow.
        Inr (grad\<lparr>elem := image_mask_split_grad mask_idx img [og_pow]
                             batch_size s grad (grid, block)\<rparr>))
      else Inr grad))))))))"

subsection \<open>The forward operator \<open>SplitMask\<close>\<close>

text \<open>
  \<open>make_node\<close> converts both inputs first and asserts the element types of the converted
  variables afterwards; it returns the inputs of the new graph node.
\<close>

definition SplitMask_make_node :: "variable \<Rightarrow> variable \<Rightarrow> error + tensor list" where
  "SplitMask_make_node mask_idx img =
     bindE (contiguouse mask_idx) (\<lambda>mask_idx'.
     bindE (contiguouse img) (\<lambda>img'.
     bindE (py_assert (fst mask_idx' = Float32)) (\<lambda>_.
     bindE (py_assert (fst img' = Float32)) (\<lambda>_.
     Inr [snd mask_idx', snd img']))))"

text \<open>
  The forward device function receives the label map, the image, the batch size, the side
  length, the zero-filled scratch buffer and the launch geometry, and yields the contents of
  the scratch buffer.
\<close>

type_synonym split_kernel =
  "tensor \<Rightarrow> tensor \<Rightarrow> nat \<Rightarrow> nat \<Rightarrow> tensor \<Rightarrow> launch \<Rightarrow> (nat list \<Rightarrow> real)"

text \<open>
  The thunk takes the number of classes \<open>len(MASK)\<close> as \<open>m\<close> and the scratch buffer kept from
  the previous call; it returns the three outputs and the scratch buffer it keeps.
\<close>

definition SplitMask_thunk ::
  "split_kernel \<Rightarrow> nat \<Rightarrow> tensor option \<Rightarrow> tensor list
     \<Rightarrow> error + ((tensor \<times> tensor \<times> tensor) \<times> tensor)" where
  "SplitMask_thunk image_mask_split m sdata0 inputs =
     bindE (list_get inputs 0) (\<lambda>mask_idx.
     bindE (list_get inputs 1) (\<lambda>img.
     bindE (list_get (shape mask_idx) 0) (\<lambda>n1.
     bindE (list_get (shape img) 0) (\<lambda>n2.
     let batch_size = min n1 n2 in
     bindE (shape_ok (shape mask_idx)) (\<lambda>ok1.
     bindE (py_assert ok1) (\<lambda>_.
     bindE (shape_ok (shape img)) (\<lambda>ok2.
     bindE (py_assert ok2) (\<lambda>_.
     let s = shape mask_idx ! 3 in
     bindE (py_assert (shape mask_idx ! 2 = shape mask_idx ! 3)) (\<lambda>_.
     let sdata_shape = [3 * m, batch_size, 1, s, s];
         sdata = pycuda_zeros sdata0 sdata_shape;
         blocks_max = 32;
         blocks_s = min blocks_max s
     in
     bindE (ceil_div s blocks_max) (\<lambda>grid_s.
     let grid = (batch_size, grid_s, grid_s);
         block = (1, blocks_s, blocks_s);
         sdata' = sdata\<lparr>elem := image_mask_split mask_idx img batch_size s sdata (grid, block)\<rparr>
     in Inr ((slice0 0 m sdata', slice0 m (2 * m) sdata', slice0 (2 * m) (3 * m) sdata'),
             sdata')))))))))))"

text \<open>Applying the operator: the graph node is built, then its thunk runs.\<close>

definition cuda_split_mask ::
  "split_kernel \<Rightarrow> nat \<Rightarrow> tensor option \<Rightarrow> variable \<Rightarrow> variable
     \<Rightarrow> error + ((tensor \<times> tensor \<times> tensor) \<times> tensor)" where
  "cuda_split_mask image_mask_split m sdata0 mask_idx img =
     bindE (SplitMask_make_node mask_idx img) (\<lambda>inputs.
     SplitMask_thunk image_mask_split m sdata0 inputs)"

text \<open>
  \<open>SplitMask.grad\<close> returns the gradient of the label map and the graph node of the image
  gradient: the gradient operator of the mode and that node's inputs.
\<close>

definition SplitMask_grad ::
  "tensor \<times> tensor \<Rightarrow> og \<times> og \<times> og \<Rightarrow> error + (tensor \<times> (SplitMaskGrad \<times> tensor list))" where
  "SplitMask_grad inputs output_gradients =
     (let (mask_idx, img) = inputs;
          (og_sum, og_pow, og_count) = output_gradients;
          connected0 = [];
          connected1 = (if og_sum \<noteq> DisconnectedType then connected0 @ [''sum''] else connected0);
          connected2 = (if og_pow \<noteq> DisconnectedType then connected1 @ [''pow''] else connected1);
          zero_grad = zeros_like mask_idx
      in bindE (SplitMaskGrad_init (Some connected2)) (\<lambda>self.
         bindE (SplitMaskGrad_make_node mask_idx img og_sum og_pow) (\<lambda>node.
         Inr (zero_grad, (self, node)))))"

subsection \<open>Array primitives of the reference implementation\<close>

text \<open>
  The reference implementation is written with the operations of the array library. Each one
  is given here the meaning it has for the uses this module makes of it; where the library
  rejects its arguments the result is an error.

  The class enumeration \<open>MASK\<close> is an ordered dictionary from class names to integer codes,
  defined outside this module; the functions below take it as an argument, as the list of its
  items in order.
\<close>

type_synonym mask_enum = "(string \<times> int) list"

text \<open>\<open>T.eq(t, v)\<close>: the indicator array of the positions that hold \<open>v\<close>.\<close>

definition T_eq :: "tensor \<Rightarrow> real \<Rightarrow> tensor" where
  "T_eq t v = \<lparr>shape = shape t, elem = (\<lambda>p. if elem t p = v then 1 else 0)\<rparr>"

text \<open>
  \<open>t.sum(axis=(k, k+1, k+2))\<close>: the three axes are summed out and disappear from the shape;
  an array with fewer than \<open>k + 3\<close> axes is rejected.
\<close>

definition sum_axes3 :: "nat \<Rightarrow> tensor \<Rightarrow> error + tensor" where
  "sum_axes3 k t =
     (if length (shape t) < k + 3 then Inl ValueError
      else Inr \<lparr>shape = take k (shape t) @ drop (k + 3) (shape t),
                elem = (\<lambda>p. sum_list (map (\<lambda>q. elem t (take k p @ q @ drop k p))
                                         (indices (take 3 (drop k (shape t))))))\<rparr>)"

text \<open>
  \<open>T.set_subtensor(count[i], row)\<close> on a matrix \<open>count\<close>: the value, which has at least one
  axis here, is rejected when it has more; its length must be that of a row of \<open>count\<close>, or
  one (it is then repeated).
\<close>

definition set_subtensor_row :: "tensor \<Rightarrow> nat \<Rightarrow> tensor \<Rightarrow> error + tensor" where
  "set_subtensor_row count i row =
     (if length (shape row) \<noteq> 1 then Inl TypeError
      else if hd (shape row) \<noteq> shape count ! 1 \<and> hd (shape row) \<noteq> 1 then Inl ValueError
      else Inr (count\<lparr>elem := (\<lambda>p. if length p = 2 \<and> p ! 0 = i
                                      then (if hd (shape row) = 1 then elem row [0]
                                            else elem row [p ! 1])
                                      else elem count p)\<rparr>))"

text \<open>
  \<open>T.set_subtensor(tmp[idx.nonzero()], src[idx.nonzero()])\<close>: the positions where \<open>idx\<close> is
  not zero index the leading axes of \<open>tmp\<close> and of \<open>src\<close> (of one shape here); such a position
  outside their extent raises \<open>IndexError\<close>.
\<close>

definition set_subtensor_nonzero :: "tensor \<Rightarrow> tensor \<Rightarrow> tensor \<Rightarrow> error + tensor" where
  "set_subtensor_nonzero tmp idx src =
     (let r = length (shape idx) in
      if length (shape src) < r then Inl IndexError
      else if list_ex (\<lambda>q. elem idx q \<noteq> 0 \<and> \<not> in_bounds (take r (shape src)) q)
                      (indices (shape idx))
        then Inl IndexError
      else Inr (tmp\<lparr>elem := (\<lambda>p. if in_bounds (shape idx) (take r p) \<and> elem idx (take r p) \<noteq> 0
                                    then elem src p else elem tmp p)\<rparr>))"

text \<open>\<open>T.stack\<close> of arrays of one shape along a new first axis; an empty list is rejected.\<close>

definition T_stack :: "tensor list \<Rightarrow> error + tensor" where
  "T_stack ts =
     (case ts of
        [] \<Rightarrow> Inl ValueError
      | t # _ \<Rightarrow> Inr \<lparr>shape = length ts # shape t,
                       elem = (\<lambda>p. case p of [] \<Rightarrow> 0 | i # q \<Rightarrow> elem (ts ! i) q)\<rparr>)"

text \<open>\<open>t**2\<close>, element by element.\<close>

definition T_sqr :: "tensor \<Rightarrow> tensor" where
  "T_sqr t = t\<lparr>elem := (\<lambda>p. (elem t p)\<^sup>2)\<rparr>"

text \<open>\<open>count.reshape((m, n, 1, 1, 1))\<close> of an \<open>(m, n)\<close> matrix: three axes of extent one are added.\<close>

definition reshape_m_n_1_1_1 :: "tensor \<Rightarrow> tensor" where
  "reshape_m_n_1_1_1 t = \<lparr>shape = shape t @ [1, 1, 1], elem = (\<lambda>p. elem t (take 2 p))\<rparr>"

subsection \<open>The reference implementation \<open>theano_split_mask\<close>\<close>

text \<open>
  The loop over \<open>enumerate(MASK.items())\<close>; its state is the count matrix and the list of
  masked images built so far.
\<close>

fun split_loop ::
  "tensor \<Rightarrow> tensor \<Rightarrow> (nat \<times> string \<times> int) list \<Rightarrow> tensor \<times> tensor list
     \<Rightarrow> error + (tensor \<times> tensor list)" where
  "split_loop mask_idx img [] st = Inr st"
| "split_loop mask_idx img ((i, name, enum_val) # rest) (count, splitted_list) =
     (let idx = T_eq mask_idx (real_of_int enum_val) in
      bindE (sum_axes3 1 idx) (\<lambda>row.
      bindE (set_subtensor_row count i row) (\<lambda>count'.
      let tmp_image = zeros_like img in
      bindE (set_subtensor_nonzero tmp_image idx img) (\<lambda>tmp_image'.
      split_loop mask_idx img rest (count', splitted_list @ [tmp_image'])))))"

definition theano_split_mask ::
  "mask_enum \<Rightarrow> tensor \<Rightarrow> tensor \<Rightarrow> error + (tensor \<times> tensor \<times> tensor)" where
  "theano_split_mask MASK mask_idx img =
     (let shp = shape img in
      bindE (list_get shp 0) (\<lambda>n.
      let count = zeros [length MASK, n];
          splitted_list = []
      in
      bindE (split_loop mask_idx img (enumerate 0 MASK) (count, splitted_list))
        (\<lambda>(count', splitted_list').
      bindE (T_stack splitted_list') (\<lambda>splitted.
      Inr (splitted, T_sqr splitted, reshape_m_n_1_1_1 count')))))"

subsection \<open>The statistics post-processor\<close>

text \<open>
  \<open>mean_by_count\<close> is used with \<open>axis = [2, 3, 4]\<close> only. Limits of the embedding:
  \<^item> the element-wise operations are given for a reduced \<open>x\<close> and a \<open>count\<close> of one shape;
    operands of different shapes, which the array library may broadcast, are reported as
    \<open>ValueError\<close>;
  \<^item> \<open>T.switch\<close> selects the zero of \<open>T.zeros_like(count)\<close> where the count is zero. The
    quotient it discards there is NaN or infinite in 32-bit floating point and has no
    counterpart among the reals, whose division is total, so nothing about NaN, infinities
    or rounding can be stated of this function.
\<close>

definition mean_by_count :: "tensor \<Rightarrow> tensor \<Rightarrow> error + tensor" where
  "mean_by_count x count =
     bindE (sum_axes3 2 x) (\<lambda>x_sum.
     if shape x_sum \<noteq> shape count then Inl ValueError
     else Inr \<lparr>shape = shape count,
               elem = (\<lambda>p. if elem count p = 0 then elem (zeros_like count) p
                            else elem x_sum p / elem count p)\<rparr>)"

text \<open>
  \<open>split_to_mean_var\<close>: the variance is the mean of the squares minus the square of the mean,
  computed here over the reals; the rounding of 32-bit floating point, which can make it
  differ from zero (and negative) for a class of constant value, is outside the embedding.
\<close>

definition split_to_mean_var ::
  "tensor \<Rightarrow> tensor \<Rightarrow> tensor \<Rightarrow> error + (tensor \<times> tensor \<times> tensor)" where
  "split_to_mean_var sum_vol pow_vol count =
     bindE (sum_axes3 2 count) (\<lambda>count_sum.
     bindE (mean_by_count sum_vol count_sum) (\<lambda>mean.
     bindE (mean_by_count pow_vol count_sum) (\<lambda>mean_pow.
     let var = mean_pow\<lparr>elem := (\<lambda>p. elem mean_pow p - (elem mean p)\<^sup>2)\<rparr>
     in Inr (mean, var, count_sum))))"

subsection \<open>The device functions\<close>

text \<open>
  Modelled from the spec: the label classifier, which the device functions of
  \<open>cuda/mask_split.cu\<close> apply to every pixel; that file is not among the sources. Given a
  label value and the enumeration it returns the index of the matching class (the first one,
  should two classes share a code); a value outside the enumeration has no class.
\<close>

fun classifier :: "mask_enum \<Rightarrow> real \<Rightarrow> nat option" where
  "classifier [] v = None"
| "classifier ((name, enum_val) # rest) v =
     (if v = real_of_int enum_val then Some 0 else map_option Suc (classifier rest v))"

text \<open>
  Modelled from the spec: one step of the device function \<open>image_mask_split\<close> of
  \<open>cuda/mask_split.cu\<close>, which is not among the sources. A pixel of class \<open>c\<close> adds its value
  to the block of sums, its square to the block of sums of squares and one to the block of
  counts, each at the pixel's own position in the slot of class \<open>c\<close>. The three blocks of
  \<open>len(MASK)\<close> classes each are stacked along the first axis of the scratch buffer.
\<close>

definition split_pixel ::
  "mask_enum \<Rightarrow> tensor \<Rightarrow> tensor \<Rightarrow> nat list \<Rightarrow> (nat list \<Rightarrow> real) \<Rightarrow> (nat list \<Rightarrow> real)" where
  "split_pixel MASK mask_idx img p buf =
     (case classifier MASK (elem mask_idx p) of
        None \<Rightarrow> buf
      | Some c \<Rightarrow>
          let m = length MASK;
              v = elem img p;
              buf1 = buf((c # p) := buf (c # p) + v);
              buf2 = buf1(((m + c) # p) := buf1 ((m + c) # p) + v * v)
          in buf2(((2 * m + c) # p) := buf2 ((2 * m + c) # p) + 1))"

text \<open>
  Modelled from the spec: the device function \<open>image_mask_split\<close>, which is not among the
  sources. It scans all pixels of the first \<open>batch_size\<close> images; the launch geometry does not
  change what it computes.
\<close>

definition image_mask_split :: "mask_enum \<Rightarrow> split_kernel" where
  "image_mask_split MASK mask_idx img batch_size s sdata launch =
     fold (split_pixel MASK mask_idx img) (indices [batch_size, 1, s, s]) (elem sdata)"

text \<open>
  Modelled from the spec: one step of the device functions of the gradient operator in
  \<open>cuda/mask_split.cu\<close>, which is not among the sources. A pixel \<open>(b, 0, y, x)\<close> of class \<open>c\<close>
  adds to its own gradient \<open>gradSum[c, b]\<close> when the sum is connected and
  \<open>2 * image[b, 0, y, x] * gradSumOfSquares[c, b]\<close> when the sum of squares is connected. The
  upstream gradients are indexed by class and image, as the spec writes them.
\<close>

definition grad_pixel ::
  "mask_enum \<Rightarrow> tensor option \<Rightarrow> tensor option \<Rightarrow> tensor \<Rightarrow> tensor \<Rightarrow> nat list
     \<Rightarrow> (nat list \<Rightarrow> real) \<Rightarrow> (nat list \<Rightarrow> real)" where
  "grad_pixel MASK og_sum og_pow mask_idx img p buf =
     (case classifier MASK (elem mask_idx p) of
        None \<Rightarrow> buf
      | Some c \<Rightarrow>
          let b = hd p;
              buf1 = (case og_sum of None \<Rightarrow> buf
                      | Some gs \<Rightarrow> buf(p := buf p + elem gs [c, b]))
          in (case og_pow of None \<Rightarrow> buf1
              | Some gp \<Rightarrow> buf1(p := buf1 p + 2 * elem img p * elem gp [c, b])))"

text \<open>
  Modelled from the spec: the device function of the mode with both gradients connected, which
  is not among the sources; it receives the gradient of the sum and then that of the sum of
  squares.
\<close>

definition image_mask_split_grad_sum_pow :: "mask_enum \<Rightarrow> grad_kernel" where
  "image_mask_split_grad_sum_pow MASK mask_idx img ogs batch_size s grad launch =
     fold (grad_pixel MASK (Some (ogs ! 0)) (Some (ogs ! 1)) mask_idx img)
          (indices [batch_size, 1, s, s]) (elem grad)"

text \<open>
  Modelled from the spec: the device function of the mode with the sum connected only, which is
  not among the sources.
\<close>

definition image_mask_split_grad_sum :: "mask_enum \<Rightarrow> grad_kernel" where
  "image_mask_split_grad_sum MASK mask_idx img ogs batch_size s grad launch =
     fold (grad_pixel MASK (Some (ogs ! 0)) None mask_idx img)
          (indices [batch_size, 1, s, s]) (elem grad)"

text \<open>
  Modelled from the spec: the device function of the mode with the sum of squares connected
  only, which is not among the sources.
\<close>

definition image_mask_split_grad_pow :: "mask_enum \<Rightarrow> grad_kernel" where
  "image_mask_split_grad_pow MASK mask_idx img ogs batch_size s grad launch =
     fold (grad_pixel MASK None (Some (ogs ! 0)) mask_idx img)
          (indices [batch_size, 1, s, s]) (elem grad)"

text \<open>
  Modelled from the spec: \<open>mod.get_function(name)\<close> on the compiled module of
  \<open>cuda/mask_split.cu\<close>, which is not among the sources, for the three names that
  \<open>SplitMaskGrad.__init__\<close> can choose.
\<close>

definition get_function :: "mask_enum \<Rightarrow> string \<Rightarrow> grad_kernel" where
  "get_function MASK name =
     (if name = ''image_mask_split_grad_sum_pow'' then image_mask_split_grad_sum_pow MASK
      else if name = ''image_mask_split_grad_sum'' then image_mask_split_grad_sum MASK
      else image_mask_split_grad_pow MASK)"

subsection \<open>The two-class scenario\<close>

text \<open>The enumeration of the scenario: class \<open>A\<close> has code 0, class \<open>B\<close> code 1.\<close>

definition MASK_AB :: mask_enum where
  "MASK_AB = [(''A'', 0), (''B'', 1)]"

text \<open>A four-axis array written out as nested lists (batch, channel, row, column).\<close>

definition array4 :: "real list list list list \<Rightarrow> tensor" where
  "array4 xs = \<lparr>shape = [length xs, length (hd xs), length (hd (hd xs)), length (hd (hd (hd xs)))],
                elem = (\<lambda>p. xs ! (p ! 0) ! (p ! 1) ! (p ! 2) ! (p ! 3))\<rparr>"

text \<open>
  Class \<open>A\<close> (code 0) is the top-left 2x2 block of a 4x4 label map, class \<open>B\<close> (code 1) the
  rest; the image is 1 on \<open>A\<close> and 3 on \<open>B\<close>.
\<close>

definition labels_4x4 :: tensor where
  "labels_4x4 = array4 [[[[0, 0, 1, 1],
                          [0, 0, 1, 1],
                          [1, 1, 1, 1],
                          [1, 1, 1, 1]]]]"

definition image_4x4 :: tensor where
  "image_4x4 = array4 [[[[1, 1, 3, 3],
                         [1, 1, 3, 3],
                         [3, 3, 3, 3],
                         [3, 3, 3, 3]]]]"

subsection \<open>Notions used in the statements\<close>

text \<open>
  The positions (channel, row, column) of image \<open>b\<close> whose label is \<open>v\<close>, in row-major order.
\<close>

definition class_pixels :: "tensor \<Rightarrow> real \<Rightarrow> nat \<Rightarrow> nat list list" where
  "class_pixels mask_idx v b =
     filter (\<lambda>q. elem mask_idx (b # q) = v) (indices (tl (shape mask_idx)))"

text \<open>
  The upstream gradient of the slot of class \<open>k\<close> and image \<open>b\<close>, zero when the gradient is
  disconnected.
\<close>

definition og_weight :: "og \<Rightarrow> nat \<Rightarrow> nat \<Rightarrow> real" where
  "og_weight g k b = (case g of DisconnectedType \<Rightarrow> 0 | Connected t \<Rightarrow> elem t [k, b])"

text \<open>
  The scalar that the upstream gradients stand for, as a function of the image: the sum over
  all classes and images of the spatial totals of the first two outputs of the forward
  operator (sum and sum of squares), each weighted by its upstream gradient. The backward
  pass has to return the derivative of this scalar with respect to every pixel.
\<close>

definition upstream_loss :: "mask_enum \<Rightarrow> tensor \<Rightarrow> og \<Rightarrow> og \<Rightarrow> tensor \<Rightarrow> real" where
  "upstream_loss MASK mask_idx og_sum og_pow img =
     (case SplitMask_thunk (image_mask_split MASK) (length MASK) None [mask_idx, img] of
        Inl e \<Rightarrow> 0
      | Inr ((o_sum, o_pow, o_count), sd) \<Rightarrow>
          sum_list (map (\<lambda>(k, b).
                og_weight og_sum k b
                  * sum_list (map (\<lambda>q. elem o_sum (k # b # q)) (indices (drop 2 (shape o_sum))))
              + og_weight og_pow k b
                  * sum_list (map (\<lambda>q. elem o_pow (k # b # q)) (indices (drop 2 (shape o_pow)))))
            (List.product [0..<length MASK] [0..<shape o_sum ! 1])))"

subsection \<open>Notions used in the proofs\<close>

text \<open>What the pixel \<open>p\<close> adds to the position \<open>key\<close> of the scratch buffer.\<close>

definition split_contrib :: "mask_enum \<Rightarrow> tensor \<Rightarrow> tensor \<Rightarrow> nat list \<Rightarrow> nat list \<Rightarrow> real" where
  "split_contrib MASK mask_idx img p key =
     (case classifier MASK (elem mask_idx p) of
        None \<Rightarrow> 0
      | Some c \<Rightarrow> (if key = c # p then elem img p else 0)
                + (if key = (length MASK + c) # p then elem img p * elem img p else 0)
                + (if key = (2 * length MASK + c) # p then 1 else 0))"

text \<open>What the pixel \<open>p\<close> adds to its own position of the gradient buffer.\<close>

definition grad_contrib ::
  "mask_enum \<Rightarrow> tensor option \<Rightarrow> tensor option \<Rightarrow> tensor \<Rightarrow> tensor \<Rightarrow> nat list \<Rightarrow> real" where
  "grad_contrib MASK og_sum og_pow mask_idx img p =
     (case classifier MASK (elem mask_idx p) of
        None \<Rightarrow> 0
      | Some c \<Rightarrow> (case og_sum of None \<Rightarrow> 0 | Some gs \<Rightarrow> elem gs [c, hd p])
                + (case og_pow of None \<Rightarrow> 0 | Some gp \<Rightarrow> 2 * elem img p * elem gp [c, hd p]))"

section \<open>Properties of the embedding\<close>

subsection \<open>Errors, shapes and the forward thunk\<close>

lemma bindE_Inr_iff: "bindE r f = Inr y \<longleftrightarrow> (\<exists>x. r = Inr x \<and> f x = Inr y)"
  by (cases r) (simp_all add: bindE_def)

lemma bindE_simps [simp]: "bindE (Inl e) f = Inl e" "bindE (Inr x) f = f x"
  by (simp_all add: bindE_def)

lemma shape_ok_cases:
  "shape_ok shp = Inl IndexError \<or> shape_ok shp = Inr True \<or> shape_ok shp = Inr False"
  by (auto simp: shape_ok_def)

lemma shape_ok_TrueD:
  "shape_ok shp = Inr True \<Longrightarrow> 4 \<le> length shp \<and> shp ! 2 = shp ! 3 \<and> shp ! 1 = 1 \<and> shp \<noteq> []"
  by (auto simp: shape_ok_def split: if_splits)

lemma pycuda_zeros_shape [simp]: "shape (pycuda_zeros arr shp) = shp"
  by (simp add: pycuda_zeros_def zeros_def split: option.splits)

lemma pycuda_zeros_elem [simp]: "elem (pycuda_zeros arr shp) = (\<lambda>p. 0)"
  by (simp add: pycuda_zeros_def zeros_def split: option.splits)

lemma slice0_shape:
  "shape t = n # rest \<Longrightarrow> shape (slice0 lo hi t) = (min hi n - min lo n) # rest"
  by (simp add: slice0_def Let_def)

lemma ceil_div_32: "ceil_div s 32 = Inr ((s + 31) div 32)"
  by (simp add: ceil_div_def)

lemma SplitMask_thunk_ok:
  assumes "shape_ok (shape mask_idx) = Inr True" and "shape_ok (shape img) = Inr True"
  shows "SplitMask_thunk k m sd [mask_idx, img] =
     (let B = min (shape mask_idx ! 0) (shape img ! 0);
          s = shape mask_idx ! 3;
          sdata = pycuda_zeros sd [3 * m, B, 1, s, s];
          sdata' = sdata\<lparr>elem := k mask_idx img B s sdata
                       ((B, (s + 31) div 32, (s + 31) div 32), (1, min 32 s, min 32 s))\<rparr>
      in Inr ((slice0 0 m sdata', slice0 m (2 * m) sdata', slice0 (2 * m) (3 * m) sdata'),
              sdata'))"
  using shape_ok_TrueD[OF assms(1)] shape_ok_TrueD[OF assms(2)] assms
  by (simp add: SplitMask_thunk_def list_get_def py_assert_def ceil_div_32 Let_def)

subsection \<open>Index lists and sums over lists\<close>

lemma in_bounds_Nil [simp]: "in_bounds [] p \<longleftrightarrow> p = []"
  by (auto simp: in_bounds_def)

lemma in_bounds_Cons:
  "in_bounds (n # ns) p \<longleftrightarrow> (\<exists>i q. p = i # q \<and> i < n \<and> in_bounds ns q)"
  by (cases p) (auto simp: in_bounds_def)

lemma in_bounds_Cons_Cons [simp]:
  "in_bounds (n # ns) (i # q) \<longleftrightarrow> i < n \<and> in_bounds ns q"
  by (auto simp: in_bounds_def)

lemma set_indices: "set (indices shp) = {p. in_bounds shp p}"
proof (induction shp)
  case Nil
  show ?case by auto
next
  case (Cons n ns)
  show ?case
    by (auto simp: Cons.IH in_bounds_Cons)
qed

lemma in_set_indices [simp]: "p \<in> set (indices shp) \<longleftrightarrow> in_bounds shp p"
  by (simp add: set_indices)

lemma length_indices: "length (indices shp) = prod_list shp"
  by (induction shp) (simp_all add: length_concat comp_def sum_list_triv)

lemma distinct_indices: "distinct (indices shp)"
proof (induction shp)
  case Nil
  show ?case by simp
next
  case (Cons n ns)
  have "distinct (concat (map (\<lambda>i. map ((#) i) (indices ns)) [0..<k]))
        \<and> (\<forall>p \<in> set (concat (map (\<lambda>i. map ((#) i) (indices ns)) [0..<k])). hd p < k)" for k
    by (induction k) (auto simp: Cons.IH distinct_map less_Suc_eq)
  then show ?case by simp
qed

declare indices.simps [simp del]

lemma sum_list_swap:
  fixes f :: "'a \<Rightarrow> 'b \<Rightarrow> real"
  shows "sum_list (map (\<lambda>x. sum_list (map (f x) ys)) xs)
       = sum_list (map (\<lambda>y. sum_list (map (\<lambda>x. f x y) xs)) ys)"
proof (induction xs)
  case Nil
  show ?case by simp
next
  case (Cons x xs)
  show ?case by (simp add: Cons.IH sum_list_addf)
qed

lemma sum_list_indicator_distinct:
  fixes x :: 'a
  shows "distinct vs \<Longrightarrow>
     sum_list (map (\<lambda>v. if x = v then 1 else 0) vs) = (if x \<in> set vs then 1 else (0::real))"
  by (induction vs) auto

lemma sum_list_map_cong:
  "(\<And>x. x \<in> set xs \<Longrightarrow> f x = g x) \<Longrightarrow> sum_list (map f xs) = sum_list (map g xs)"
  by (induction xs) auto

subsection \<open>The reference implementation\<close>

lemma T_eq_simps [simp]:
  "shape (T_eq t v) = shape t"
  "elem (T_eq t v) p = (if elem t p = v then 1 else 0)"
  by (simp_all add: T_eq_def)

lemma zeros_simps [simp]:
  "shape (zeros shp) = shp" "elem (zeros shp) p = 0"
  "shape (zeros_like t) = shape t" "elem (zeros_like t) p = 0"
  by (simp_all add: zeros_def zeros_like_def)

lemma T_sqr_simps [simp]: "shape (T_sqr t) = shape t" "elem (T_sqr t) p = (elem t p)\<^sup>2"
  by (simp_all add: T_sqr_def)

lemma sum_axes3_Inr_iff:
  "sum_axes3 k t = Inr r \<longleftrightarrow>
     k + 3 \<le> length (shape t)
     \<and> r = \<lparr>shape = take k (shape t) @ drop (k + 3) (shape t),
            elem = (\<lambda>p. sum_list (map (\<lambda>q. elem t (take k p @ q @ drop k p))
                                     (indices (take 3 (drop k (shape t))))))\<rparr>"
  by (auto simp: sum_axes3_def)

lemma split_loop_result:
  "split_loop mask_idx img (enumerate k xs) (cnt, sl) = Inr (cnt', sl') \<Longrightarrow>
     sl' = sl @ map (\<lambda>nv. \<lparr>shape = shape img,
                            elem = (\<lambda>p. if in_bounds (shape mask_idx) (take (length (shape mask_idx)) p)
                                           \<and> elem mask_idx (take (length (shape mask_idx)) p)
                                               = real_of_int (snd nv)
                                        then elem img p else 0)\<rparr>) xs
     \<and> shape cnt' = shape cnt
     \<and> elem cnt' =
         (\<lambda>p. if length p = 2 \<and> k \<le> p ! 0 \<and> p ! 0 < k + length xs
               then sum_list (map (\<lambda>q. if elem mask_idx ((if shape mask_idx ! 0 = 1 then 0 else p ! 1) # q)
                                            = real_of_int (snd (xs ! (p ! 0 - k)))
                                         then 1 else 0)
                                  (indices (take 3 (drop 1 (shape mask_idx)))))
               else elem cnt p)
     \<and> (xs \<noteq> [] \<longrightarrow> length (shape mask_idx) = 4)"
proof (induction xs arbitrary: k cnt sl)
  case Nil
  then show ?case by (simp add: fun_eq_iff)
next
  case (Cons x xs)
  obtain name v where x: "x = (name, v)" by (cases x)
  from Cons.prems obtain row cnt1 tmp where
    row: "sum_axes3 1 (T_eq mask_idx (real_of_int v)) = Inr row"
    and cnt1: "set_subtensor_row cnt k row = Inr cnt1"
    and tmp: "set_subtensor_nonzero (zeros_like img) (T_eq mask_idx (real_of_int v)) img = Inr tmp"
    and rest: "split_loop mask_idx img (enumerate (Suc k) xs) (cnt1, sl @ [tmp]) = Inr (cnt', sl')"
    by (auto simp: x Let_def bindE_Inr_iff)
  from row have rank: "4 \<le> length (shape mask_idx)"
    and row_def: "row = \<lparr>shape = take 1 (shape mask_idx) @ drop 4 (shape mask_idx),
            elem = (\<lambda>p. sum_list (map (\<lambda>q. elem (T_eq mask_idx (real_of_int v)) (take 1 p @ q @ drop 1 p))
                                     (indices (take 3 (drop 1 (shape mask_idx))))))\<rparr>"
    by (simp_all add: sum_axes3_Inr_iff)
  from cnt1 have row1: "length (shape row) = 1"
    by (auto simp: set_subtensor_row_def split: if_splits)
  with rank row_def have rank4: "length (shape mask_idx) = 4" by simp
  then have hd_row: "hd (shape row) = shape mask_idx ! 0"
    by (cases "shape mask_idx") (simp_all add: row_def)
  have row_elem: "elem row [b] = sum_list (map (\<lambda>q. if elem mask_idx (b # q) = real_of_int v then 1 else 0)
                                     (indices (take 3 (drop 1 (shape mask_idx)))))" for b
    by (simp add: row_def)
  from cnt1 have cnt1_shape: "shape cnt1 = shape cnt"
    and cnt1_elem: "elem cnt1 = (\<lambda>p. if length p = 2 \<and> p ! 0 = k
                                      then (if hd (shape row) = 1 then elem row [0]
                                            else elem row [p ! 1])
                                      else elem cnt p)"
    by (auto simp: set_subtensor_row_def split: if_splits)
  from tmp have tmp_def: "tmp = \<lparr>shape = shape img,
                            elem = (\<lambda>p. if in_bounds (shape mask_idx) (take (length (shape mask_idx)) p)
                                           \<and> elem mask_idx (take (length (shape mask_idx)) p)
                                               = real_of_int v
                                        then elem img p else 0)\<rparr>"
    by (auto simp: set_subtensor_nonzero_def Let_def zeros_like_def zeros_def fun_eq_iff
        split: if_splits)
  note IH = Cons.IH[OF rest]
  have "elem cnt' =
         (\<lambda>p. if length p = 2 \<and> k \<le> p ! 0 \<and> p ! 0 < k + length (x # xs)
               then sum_list (map (\<lambda>q. if elem mask_idx ((if shape mask_idx ! 0 = 1 then 0 else p ! 1) # q)
                                            = real_of_int (snd ((x # xs) ! (p ! 0 - k)))
                                         then 1 else 0)
                                  (indices (take 3 (drop 1 (shape mask_idx)))))
               else elem cnt p)"
  proof
    fix p
    show "elem cnt' p = (if length p = 2 \<and> k \<le> p ! 0 \<and> p ! 0 < k + length (x # xs)
               then sum_list (map (\<lambda>q. if elem mask_idx ((if shape mask_idx ! 0 = 1 then 0 else p ! 1) # q)
                                            = real_of_int (snd ((x # xs) ! (p ! 0 - k)))
                                         then 1 else 0)
                                  (indices (take 3 (drop 1 (shape mask_idx)))))
               else elem cnt p)"
    proof (cases "length p = 2 \<and> p ! 0 = k")
      case True
      then show ?thesis
        using IH by (simp add: cnt1_elem hd_row row_elem x)
    next
      case False
      then show ?thesis
        using IH by (auto simp: cnt1_elem nth_Cons' Suc_diff_Suc)
    qed
  qed
  then show ?case
    using IH by (simp add: x tmp_def cnt1_shape rank4)
qed

lemma split_loop_total:
  "length (shape mask_idx) = 4 \<Longrightarrow> shape img = shape mask_idx \<Longrightarrow>
   shape cnt ! 1 = shape mask_idx ! 0 \<Longrightarrow>
   \<exists>r. split_loop mask_idx img es (cnt, sl) = Inr r"
proof (induction es arbitrary: cnt sl)
  case Nil
  show ?case by simp
next
  case (Cons e es)
  obtain i name v where e: "e = (i, name, v)" by (cases e)
  have hd: "hd (take (Suc 0) (shape mask_idx) @ drop 4 (shape mask_idx)) = shape mask_idx ! 0"
    "hd (shape mask_idx) = shape mask_idx ! 0"
    using Cons.prems(1) by (cases "shape mask_idx"; simp)+
  show ?case
    using Cons.prems Cons.IH
    by (simp add: e Let_def sum_axes3_def set_subtensor_row_def set_subtensor_nonzero_def hd
        list_ex_iff)
qed

lemma theano_split_mask_result:
  assumes "theano_split_mask MASK mask_idx img = Inr (splitted, pow_vol, count)"
  shows "MASK \<noteq> []" and "length (shape mask_idx) = 4"
    and "shape splitted = length MASK # shape img"
    and "pow_vol = T_sqr splitted"
    and "c < length MASK \<Longrightarrow>
           elem splitted (c # q) =
             (if in_bounds (shape mask_idx) (take 4 q)
                 \<and> elem mask_idx (take 4 q) = real_of_int (snd (MASK ! c))
              then elem img q else 0)"
    and "shape count = [length MASK, shape img ! 0, 1, 1, 1]"
    and "c < length MASK \<Longrightarrow> length r = 3 \<Longrightarrow>
           elem count (c # b # r) =
             sum_list (map (\<lambda>q. if elem mask_idx ((if shape mask_idx ! 0 = 1 then 0 else b) # q)
                                       = real_of_int (snd (MASK ! c))
                                  then 1 else 0)
                           (indices (take 3 (drop 1 (shape mask_idx)))))"
proof -
  from assms obtain n count' sl where
    n: "list_get (shape img) 0 = Inr n"
    and loop: "split_loop mask_idx img (enumerate 0 MASK) (zeros [length MASK, n], []) = Inr (count', sl)"
    and stack: "T_stack sl = Inr splitted"
    and pw: "pow_vol = T_sqr splitted"
    and cnt: "count = reshape_m_n_1_1_1 count'"
    by (auto simp: theano_split_mask_def Let_def bindE_Inr_iff)
  note L = split_loop_result[OF loop]
  from L have sl: "sl = map (\<lambda>nv. \<lparr>shape = shape img,
                            elem = (\<lambda>p. if in_bounds (shape mask_idx) (take (length (shape mask_idx)) p)
                                           \<and> elem mask_idx (take (length (shape mask_idx)) p)
                                               = real_of_int (snd nv)
                                        then elem img p else 0)\<rparr>) MASK"
    by simp
  from stack show ne: "MASK \<noteq> []"
    by (auto simp: T_stack_def sl split: list.splits)
  with L show r4: "length (shape mask_idx) = 4" by simp
  from stack ne show "shape splitted = length MASK # shape img"
    by (cases MASK) (auto simp: T_stack_def sl)
  show "pow_vol = T_sqr splitted" by (rule pw)
  from stack ne have sp_elem: "elem splitted (c # q) = elem (sl ! c) q" for c q
    by (cases sl) (auto simp: T_stack_def sl)
  show "elem splitted (c # q) =
             (if in_bounds (shape mask_idx) (take 4 q)
                 \<and> elem mask_idx (take 4 q) = real_of_int (snd (MASK ! c))
              then elem img q else 0)" if "c < length MASK"
    using that by (simp add: sp_elem sl r4)
  from n have n_eq: "n = shape img ! 0"
    by (auto simp: list_get_def split: if_splits)
  from L show "shape count = [length MASK, shape img ! 0, 1, 1, 1]"
    by (simp add: cnt reshape_m_n_1_1_1_def n_eq)
  show "elem count (c # b # r) =
             sum_list (map (\<lambda>q. if elem mask_idx ((if shape mask_idx ! 0 = 1 then 0 else b) # q)
                                       = real_of_int (snd (MASK ! c))
                                  then 1 else 0)
                           (indices (take 3 (drop 1 (shape mask_idx)))))"
    if "c < length MASK" "length r = 3"
    using that L by (simp add: cnt reshape_m_n_1_1_1_def)
qed

lemma theano_split_mask_total:
  assumes "length (shape mask_idx) = 4" and "shape img = shape mask_idx" and "MASK \<noteq> []"
  shows "\<exists>r. theano_split_mask MASK mask_idx img = Inr r"
proof -
  from assms(1,2) have ne: "shape img \<noteq> []" by auto
  obtain count' sl where
    loop: "split_loop mask_idx img (enumerate 0 MASK) (zeros [length MASK, shape img ! 0], [])
             = Inr (count', sl)"
    using split_loop_total[OF assms(1,2), of "zeros [length MASK, shape img ! 0]" "enumerate 0 MASK" "[]"]
      assms(2)
    by auto
  from split_loop_result[OF loop] assms(3) have "sl \<noteq> []" by simp
  then show ?thesis
    using ne loop by (cases sl) (simp_all add: theano_split_mask_def list_get_def Let_def T_stack_def)
qed

lemma scenario_shapes [simp]:
  "shape labels_4x4 = [1, 1, 4, 4]" "shape image_4x4 = [1, 1, 4, 4]"
  by (simp_all add: labels_4x4_def image_4x4_def array4_def)

lemma sum_list_class_indicator:
  assumes "distinct (map snd MASK)"
  shows "sum_list (map (\<lambda>c. if x = real_of_int (snd (MASK ! c)) then 1 else 0) [0..<length MASK])
         = (if x \<in> real_of_int ` snd ` set MASK then 1 else (0::real))"
proof -
  have "map (\<lambda>c. if x = real_of_int (snd (MASK ! c)) then 1 else (0::real)) [0..<length MASK]
        = map (\<lambda>nv. if x = real_of_int (snd nv) then 1 else 0) (map ((!) MASK) [0..<length MASK])"
    by (simp add: comp_def)
  then have "map (\<lambda>c. if x = real_of_int (snd (MASK ! c)) then 1 else (0::real)) [0..<length MASK]
        = map (\<lambda>v. if x = v then 1 else 0) (map (\<lambda>nv. real_of_int (snd nv)) MASK)"
    by (simp only: map_nth map_map comp_def)
  moreover have "distinct (map (\<lambda>nv. real_of_int (snd nv)) MASK)"
    using assms by (simp add: distinct_map inj_on_def)
  ultimately show ?thesis
    by (simp add: sum_list_indicator_distinct image_image del: map_map)
qed

lemma less_4_cases: "(n::nat) < 4 \<Longrightarrow> n = 0 \<or> n = 1 \<or> n = 2 \<or> n = 3"
  by arith

lemma MASK_AB_facts:
  "MASK_AB \<noteq> []" "distinct (map snd MASK_AB)" "length MASK_AB = 2"
  by (simp_all add: MASK_AB_def)

lemma labels_4x4_in_enum:
  "in_bounds (shape labels_4x4) q \<Longrightarrow> elem labels_4x4 q \<in> real_of_int ` snd ` set MASK_AB"
proof -
  assume "in_bounds (shape labels_4x4) q"
  then obtain y x where q: "q = [0, 0, y, x]" "y < 4" "x < 4"
    by (auto simp: in_bounds_Cons)
  from less_4_cases[OF q(2)] less_4_cases[OF q(3)] show ?thesis
    by (auto simp: q(1) labels_4x4_def array4_def MASK_AB_def)
qed

subsection \<open>The post-processor and the reference pipeline\<close>

lemma mean_by_count_Inr_iff:
  "mean_by_count x count = Inr r \<longleftrightarrow>
     5 \<le> length (shape x) \<and> take 2 (shape x) @ drop 5 (shape x) = shape count
     \<and> r = \<lparr>shape = shape count,
            elem = (\<lambda>p. if elem count p = 0 then 0
                         else sum_list (map (\<lambda>q. elem x (take 2 p @ q @ drop 2 p))
                                            (indices (take 3 (drop 2 (shape x)))))
                              / elem count p)\<rparr>"
  by (auto simp: mean_by_count_def bindE_Inr_iff sum_axes3_Inr_iff)

lemma split_to_mean_var_result:
  assumes "split_to_mean_var sum_vol pow_vol count = Inr (mean, var, count_sum)"
  shows "sum_axes3 2 count = Inr count_sum"
    and "shape mean = shape count_sum" and "shape var = shape count_sum"
    and "elem mean p = (if elem count_sum p = 0 then 0
                        else sum_list (map (\<lambda>q. elem sum_vol (take 2 p @ q @ drop 2 p))
                                           (indices (take 3 (drop 2 (shape sum_vol)))))
                             / elem count_sum p)"
    and "elem var p = (if elem count_sum p = 0 then 0
                       else sum_list (map (\<lambda>q. elem pow_vol (take 2 p @ q @ drop 2 p))
                                          (indices (take 3 (drop 2 (shape pow_vol)))))
                            / elem count_sum p) - (elem mean p)\<^sup>2"
  using assms
  by (auto simp: split_to_mean_var_def bindE_Inr_iff mean_by_count_Inr_iff Let_def)

lemma split_to_mean_var_total:
  assumes "5 \<le> length (shape count)" and "5 \<le> length (shape sum_vol)"
    and "5 \<le> length (shape pow_vol)"
    and "take 2 (shape sum_vol) @ drop 5 (shape sum_vol) = take 2 (shape count) @ drop 5 (shape count)"
    and "take 2 (shape pow_vol) @ drop 5 (shape pow_vol) = take 2 (shape count) @ drop 5 (shape count)"
  shows "\<exists>r. split_to_mean_var sum_vol pow_vol count = Inr r"
  using assms
  by (simp add: split_to_mean_var_def mean_by_count_def sum_axes3_def Let_def)

lemma sum_list_indicator_length:
  "sum_list (map (\<lambda>q. if P q then 1 else (0::real)) xs) = real (length (filter P xs))"
  by (induction xs) simp_all

lemma indices_1_1_1: "indices [1, 1, 1] = [[0, 0, 0]]"
  by (simp add: indices.simps)

lemma theano_split_mask_stats:
  assumes r: "theano_split_mask MASK mask_idx img = Inr (splitted, pow_vol, count)"
    and same: "shape img = shape mask_idx"
    and k: "k < length MASK" and b: "b < shape mask_idx ! 0"
  shows "sum_list (map (\<lambda>q. elem splitted ([k, b] @ q)) (indices (take 3 (drop 2 (shape splitted)))))
         = sum_list (map (\<lambda>q. elem img (b # q))
                         (class_pixels mask_idx (real_of_int (snd (MASK ! k))) b))"
    and "sum_list (map (\<lambda>q. elem pow_vol ([k, b] @ q)) (indices (take 3 (drop 2 (shape pow_vol)))))
         = sum_list (map (\<lambda>q. (elem img (b # q))\<^sup>2)
                         (class_pixels mask_idx (real_of_int (snd (MASK ! k))) b))"
    and "sum_list (map (\<lambda>q. elem count ([k, b] @ q)) (indices (take 3 (drop 2 (shape count)))))
         = real (length (class_pixels mask_idx (real_of_int (snd (MASK ! k))) b))"
proof -
  let ?v = "real_of_int (snd (MASK ! k))"
  obtain n c h w where shp: "shape mask_idx = [n, c, h, w]"
    using theano_split_mask_result(2)[OF r] by (auto simp: length_Suc_conv numeral_eq_Suc)
  from b have bn: "b < n" by (simp add: shp)
  have sp_shape: "take 3 (drop 2 (shape splitted)) = [c, h, w]"
    and pw_shape: "take 3 (drop 2 (shape pow_vol)) = [c, h, w]"
    by (simp_all add: theano_split_mask_result(3,4)[OF r] same shp)
  have cnt_shape: "take 3 (drop 2 (shape count)) = [1, 1, 1]"
    by (simp add: theano_split_mask_result(6)[OF r])
  have el: "elem splitted (k # b # q) = (if elem mask_idx (b # q) = ?v then elem img (b # q) else 0)"
    if "q \<in> set (indices [c, h, w])" for q
  proof -
    from that have ib: "in_bounds [c, h, w] q" by (simp only: in_set_indices)
    then have "length q = 3" by (simp add: in_bounds_def)
    with ib show ?thesis
      using bn by (simp add: theano_split_mask_result(5)[OF r k] shp)
  qed
  have "sum_list (map (\<lambda>q. elem splitted ([k, b] @ q)) (indices [c, h, w]))
      = sum_list (map (\<lambda>q. if elem mask_idx (b # q) = ?v then elem img (b # q) else 0)
                      (indices [c, h, w]))"
    by (rule sum_list_map_cong) (simp add: el)
  then show "sum_list (map (\<lambda>q. elem splitted ([k, b] @ q)) (indices (take 3 (drop 2 (shape splitted)))))
         = sum_list (map (\<lambda>q. elem img (b # q)) (class_pixels mask_idx ?v b))"
    unfolding sp_shape class_pixels_def by (simp add: sum_list_map_filter' shp)
  have "sum_list (map (\<lambda>q. elem pow_vol ([k, b] @ q)) (indices [c, h, w]))
      = sum_list (map (\<lambda>q. if elem mask_idx (b # q) = ?v then (elem img (b # q))\<^sup>2 else 0)
                      (indices [c, h, w]))"
    by (rule sum_list_map_cong) (simp add: el theano_split_mask_result(4)[OF r])
  then show "sum_list (map (\<lambda>q. elem pow_vol ([k, b] @ q)) (indices (take 3 (drop 2 (shape pow_vol)))))
         = sum_list (map (\<lambda>q. (elem img (b # q))\<^sup>2) (class_pixels mask_idx ?v b))"
    unfolding pw_shape class_pixels_def by (simp add: sum_list_map_filter' shp)
  have "elem count [k, b, 0, 0, 0]
      = sum_list (map (\<lambda>q. if elem mask_idx (b # q) = ?v then 1 else 0) (indices [c, h, w]))"
    using theano_split_mask_result(7)[OF r k, of "[0, 0, 0]" b] bn
    by (auto simp: shp)
  then show "sum_list (map (\<lambda>q. elem count ([k, b] @ q)) (indices (take 3 (drop 2 (shape count)))))
         = real (length (class_pixels mask_idx ?v b))"
    unfolding cnt_shape indices_1_1_1 class_pixels_def
    by (simp add: sum_list_indicator_length shp)
qed

lemma reference_pipeline_total:
  assumes r4: "length (shape mask_idx) = 4" and same: "shape img = shape mask_idx"
    and ne: "MASK \<noteq> []"
  shows "\<exists>splitted pow_vol count mean var count_sum sum_tot pow_tot.
          theano_split_mask MASK mask_idx img = Inr (splitted, pow_vol, count)
          \<and> split_to_mean_var splitted pow_vol count = Inr (mean, var, count_sum)
          \<and> sum_axes3 2 splitted = Inr sum_tot \<and> sum_axes3 2 pow_vol = Inr pow_tot"
proof -
  obtain splitted pow_vol count where
    r: "theano_split_mask MASK mask_idx img = Inr (splitted, pow_vol, count)"
    using theano_split_mask_total[OF r4 same ne] by (metis prod_cases3)
  note R = theano_split_mask_result[OF r]
  have shapes: "shape splitted = length MASK # shape mask_idx"
    "shape pow_vol = length MASK # shape mask_idx"
    "shape count = [length MASK, shape mask_idx ! 0, 1, 1, 1]"
    by (simp_all add: R(3,4,6) same)
  obtain n c h w where shp: "shape mask_idx = [n, c, h, w]"
    using r4 by (auto simp: length_Suc_conv numeral_eq_Suc)
  obtain mean var count_sum where
    s: "split_to_mean_var splitted pow_vol count = Inr (mean, var, count_sum)"
    using split_to_mean_var_total[of count splitted pow_vol]
    by (simp add: shapes shp) (metis prod_cases3)
  have "\<exists>sum_tot pow_tot. sum_axes3 2 splitted = Inr sum_tot \<and> sum_axes3 2 pow_vol = Inr pow_tot"
    by (simp add: sum_axes3_def shapes shp)
  with r s show ?thesis by blast
qed

lemma reference_pipeline_values:
  assumes r: "theano_split_mask MASK mask_idx img = Inr (splitted, pow_vol, count)"
    and s: "split_to_mean_var splitted pow_vol count = Inr (mean, var, count_sum)"
    and same: "shape img = shape mask_idx"
    and k: "k < length MASK" and b: "b < shape mask_idx ! 0"
  shows "elem count_sum [k, b]
              = real (length (class_pixels mask_idx (real_of_int (snd (MASK ! k))) b))"
    and "elem mean [k, b]
              = (if class_pixels mask_idx (real_of_int (snd (MASK ! k))) b = [] then 0
                 else sum_list (map (\<lambda>q. elem img (b # q))
                                    (class_pixels mask_idx (real_of_int (snd (MASK ! k))) b))
                      / real (length (class_pixels mask_idx (real_of_int (snd (MASK ! k))) b)))"
    and "elem var [k, b]
              = (if class_pixels mask_idx (real_of_int (snd (MASK ! k))) b = [] then 0
                 else sum_list (map (\<lambda>q. (elem img (b # q))\<^sup>2)
                                    (class_pixels mask_idx (real_of_int (snd (MASK ! k))) b))
                      / real (length (class_pixels mask_idx (real_of_int (snd (MASK ! k))) b)))
                - (elem mean [k, b])\<^sup>2"
    and "sum_axes3 2 splitted = Inr sum_tot \<Longrightarrow>
           elem sum_tot [k, b] = sum_list (map (\<lambda>q. elem img (b # q))
                                    (class_pixels mask_idx (real_of_int (snd (MASK ! k))) b))"
    and "sum_axes3 2 pow_vol = Inr pow_tot \<Longrightarrow>
           elem pow_tot [k, b] = sum_list (map (\<lambda>q. (elem img (b # q))\<^sup>2)
                                    (class_pixels mask_idx (real_of_int (snd (MASK ! k))) b))"
proof -
  note S = split_to_mean_var_result[OF s]
  note T = theano_split_mask_stats[OF r same k b]
  show cs: "elem count_sum [k, b]
      = real (length (class_pixels mask_idx (real_of_int (snd (MASK ! k))) b))"
    using S(1) T(3) by (auto simp: sum_axes3_Inr_iff)
  show "elem mean [k, b]
              = (if class_pixels mask_idx (real_of_int (snd (MASK ! k))) b = [] then 0
                 else sum_list (map (\<lambda>q. elem img (b # q))
                                    (class_pixels mask_idx (real_of_int (snd (MASK ! k))) b))
                      / real (length (class_pixels mask_idx (real_of_int (snd (MASK ! k))) b)))"
    using T(1) by (simp add: S(4)[of "[k, b]"] cs)
  show "elem var [k, b]
              = (if class_pixels mask_idx (real_of_int (snd (MASK ! k))) b = [] then 0
                 else sum_list (map (\<lambda>q. (elem img (b # q))\<^sup>2)
                                    (class_pixels mask_idx (real_of_int (snd (MASK ! k))) b))
                      / real (length (class_pixels mask_idx (real_of_int (snd (MASK ! k))) b)))
                - (elem mean [k, b])\<^sup>2"
    using T(2) by (simp add: S(5)[of "[k, b]"] cs)
  show "elem sum_tot [k, b] = sum_list (map (\<lambda>q. elem img (b # q))
                                    (class_pixels mask_idx (real_of_int (snd (MASK ! k))) b))"
    if "sum_axes3 2 splitted = Inr sum_tot"
    using that T(1) by (auto simp: sum_axes3_Inr_iff)
  show "elem pow_tot [k, b] = sum_list (map (\<lambda>q. (elem img (b # q))\<^sup>2)
                                    (class_pixels mask_idx (real_of_int (snd (MASK ! k))) b))"
    if "sum_axes3 2 pow_vol = Inr pow_tot"
    using that T(2) by (auto simp: sum_axes3_Inr_iff)
qed

lemma scenario_class_pixels:
  "class_pixels labels_4x4 0 0 = [[0, 0, 0], [0, 0, 1], [0, 1, 0], [0, 1, 1]]"
  "class_pixels labels_4x4 1 0 =
     [[0, 0, 2], [0, 0, 3], [0, 1, 2], [0, 1, 3],
      [0, 2, 0], [0, 2, 1], [0, 2, 2], [0, 2, 3],
      [0, 3, 0], [0, 3, 1], [0, 3, 2], [0, 3, 3]]"
  by (simp_all add: class_pixels_def labels_4x4_def array4_def indices.simps upt_rec_numeral)

subsection \<open>The forward device function\<close>

lemma classifier_Some:
  "classifier MASK v = Some c \<Longrightarrow> c < length MASK \<and> v = real_of_int (snd (MASK ! c))"
proof (induction MASK arbitrary: c)
  case Nil
  then show ?case by simp
next
  case (Cons e MASK)
  obtain name enum_val where e: "e = (name, enum_val)" by (cases e)
  from Cons show ?case
    by (cases c) (auto simp: e split: if_splits)
qed

lemma classifier_distinct:
  "distinct (map snd MASK) \<Longrightarrow> c < length MASK \<Longrightarrow>
   classifier MASK (real_of_int (snd (MASK ! c))) = Some c"
proof (induction MASK arbitrary: c)
  case Nil
  then show ?case by simp
next
  case (Cons e MASK)
  obtain name enum_val where e: "e = (name, enum_val)" by (cases e)
  show ?case
  proof (cases c)
    case 0
    then show ?thesis by (simp add: e)
  next
    case (Suc c')
    with Cons.prems have "snd (MASK ! c') \<in> snd ` set MASK" and "enum_val \<notin> snd ` set MASK"
      by (auto simp: e)
    then have "snd (MASK ! c') \<noteq> enum_val" by auto
    with Cons Suc show ?thesis by (simp add: e)
  qed
qed

lemma classifier_eq_iff:
  assumes "distinct (map snd MASK)" and "k < length MASK"
  shows "classifier MASK v = Some k \<longleftrightarrow> v = real_of_int (snd (MASK ! k))"
  using classifier_Some[of MASK v k] classifier_distinct[OF assms] by auto

lemma split_pixel_add:
  "split_pixel MASK mask_idx img p buf key = buf key + split_contrib MASK mask_idx img p key"
  by (auto simp: split_pixel_def split_contrib_def Let_def split: option.splits)

lemma fold_split_pixel:
  "fold (split_pixel MASK mask_idx img) ps buf key
     = buf key + sum_list (map (\<lambda>p. split_contrib MASK mask_idx img p key) ps)"
proof (induction ps arbitrary: buf)
  case Nil
  show ?case by simp
next
  case (Cons p ps)
  have h: "fold (split_pixel MASK mask_idx img) (p # ps) buf key
        = split_pixel MASK mask_idx img p buf key
          + sum_list (map (\<lambda>p. split_contrib MASK mask_idx img p key) ps)"
    by (simp only: fold_Cons comp_apply Cons.IH)
  have step: "split_pixel MASK mask_idx img p buf key
        = buf key + split_contrib MASK mask_idx img p key"
    by (rule split_pixel_add)
  show ?case unfolding h step by simp
qed

lemma sum_list_single_point:
  fixes g :: "'a \<Rightarrow> real"
  shows "distinct xs \<Longrightarrow>
     sum_list (map (\<lambda>p. if p = x then g p else 0) xs) = (if x \<in> set xs then g x else 0)"
  by (induction xs) auto

lemma split_contrib_blocks:
  assumes "k < length MASK"
  shows "split_contrib MASK mask_idx img p (k # r)
           = (if p = r \<and> classifier MASK (elem mask_idx p) = Some k then elem img p else 0)"
    and "split_contrib MASK mask_idx img p ((length MASK + k) # r)
           = (if p = r \<and> classifier MASK (elem mask_idx p) = Some k then (elem img p)\<^sup>2 else 0)"
    and "split_contrib MASK mask_idx img p ((2 * length MASK + k) # r)
           = (if p = r \<and> classifier MASK (elem mask_idx p) = Some k then 1 else 0)"
proof -
  show "split_contrib MASK mask_idx img p (k # r)
           = (if p = r \<and> classifier MASK (elem mask_idx p) = Some k then elem img p else 0)"
  proof (cases "classifier MASK (elem mask_idx p)")
    case None
    then show ?thesis by (simp add: split_contrib_def)
  next
    case (Some c)
    with classifier_Some[OF Some] assms show ?thesis
      by (auto simp: split_contrib_def)
  qed
  show "split_contrib MASK mask_idx img p ((length MASK + k) # r)
           = (if p = r \<and> classifier MASK (elem mask_idx p) = Some k then (elem img p)\<^sup>2 else 0)"
  proof (cases "classifier MASK (elem mask_idx p)")
    case None
    then show ?thesis by (simp add: split_contrib_def)
  next
    case (Some c)
    with classifier_Some[OF Some] assms show ?thesis
      by (auto simp: split_contrib_def power2_eq_square)
  qed
  show "split_contrib MASK mask_idx img p ((2 * length MASK + k) # r)
           = (if p = r \<and> classifier MASK (elem mask_idx p) = Some k then 1 else 0)"
  proof (cases "classifier MASK (elem mask_idx p)")
    case None
    then show ?thesis by (simp add: split_contrib_def)
  next
    case (Some c)
    with classifier_Some[OF Some] assms show ?thesis
      by (auto simp: split_contrib_def)
  qed
qed

lemma image_mask_split_elem:
  assumes k: "k < length MASK" and r: "in_bounds [batch_size, 1, s, s] r"
    and z: "elem sdata = (\<lambda>p. 0)"
  shows "image_mask_split MASK mask_idx img batch_size s sdata launch (k # r)
           = (if classifier MASK (elem mask_idx r) = Some k then elem img r else 0)"
    and "image_mask_split MASK mask_idx img batch_size s sdata launch ((length MASK + k) # r)
           = (if classifier MASK (elem mask_idx r) = Some k then (elem img r)\<^sup>2 else 0)"
    and "image_mask_split MASK mask_idx img batch_size s sdata launch ((2 * length MASK + k) # r)
           = (if classifier MASK (elem mask_idx r) = Some k then 1 else 0)"
proof -
  let ?ps = "indices [batch_size, 1, s, s]"
  have mem: "r \<in> set ?ps" using r by (simp only: in_set_indices)
  have d: "distinct ?ps" by (rule distinct_indices)
  have 1: "sum_list (map (\<lambda>p. if p = r then g p else 0) ?ps) = g r" for g :: "nat list \<Rightarrow> real"
    using sum_list_single_point[OF d, of r g] mem by simp
  have K: "image_mask_split MASK mask_idx img batch_size s sdata launch key
           = sum_list (map (\<lambda>p. split_contrib MASK mask_idx img p key) ?ps)" for key
    by (simp add: image_mask_split_def fold_split_pixel z)
  have "sum_list (map (\<lambda>p. split_contrib MASK mask_idx img p (k # r)) ?ps)
        = sum_list (map (\<lambda>p. if p = r then (if classifier MASK (elem mask_idx p) = Some k
                                              then elem img p else 0) else 0) ?ps)"
    by (rule sum_list_map_cong) (simp add: split_contrib_blocks(1)[OF k])
  then show "image_mask_split MASK mask_idx img batch_size s sdata launch (k # r)
           = (if classifier MASK (elem mask_idx r) = Some k then elem img r else 0)"
    by (simp only: K 1)
  have "sum_list (map (\<lambda>p. split_contrib MASK mask_idx img p ((length MASK + k) # r)) ?ps)
        = sum_list (map (\<lambda>p. if p = r then (if classifier MASK (elem mask_idx p) = Some k
                                              then (elem img p)\<^sup>2 else 0) else 0) ?ps)"
    by (rule sum_list_map_cong) (simp add: split_contrib_blocks(2)[OF k])
  then show "image_mask_split MASK mask_idx img batch_size s sdata launch ((length MASK + k) # r)
           = (if classifier MASK (elem mask_idx r) = Some k then (elem img r)\<^sup>2 else 0)"
    by (simp only: K 1)
  have "sum_list (map (\<lambda>p. split_contrib MASK mask_idx img p ((2 * length MASK + k) # r)) ?ps)
        = sum_list (map (\<lambda>p. if p = r then (if classifier MASK (elem mask_idx p) = Some k
                                              then 1 else 0) else 0) ?ps)"
    by (rule sum_list_map_cong) (simp add: split_contrib_blocks(3)[OF k])
  then show "image_mask_split MASK mask_idx img batch_size s sdata launch ((2 * length MASK + k) # r)
           = (if classifier MASK (elem mask_idx r) = Some k then 1 else 0)"
    by (simp only: K 1)
qed

lemma slice0_elem:
  "shape t = n # rest \<Longrightarrow> elem (slice0 lo hi t) (i # q) = elem t ((min lo n + i) # q)"
  by (simp add: slice0_def Let_def)

lemma SplitMask_thunk_spec_kernel:
  assumes ok1: "shape_ok (shape mask_idx) = Inr True" and ok2: "shape_ok (shape img) = Inr True"
    and thunk: "SplitMask_thunk (image_mask_split MASK) (length MASK) sd [mask_idx, img]
                  = Inr ((o1, o2, o3), sd')"
    and k: "k < length MASK" and b: "b < min (shape mask_idx ! 0) (shape img ! 0)"
  shows "in_bounds [1, shape mask_idx ! 3, shape mask_idx ! 3] q \<Longrightarrow> elem o1 (k # b # q)
           = (if classifier MASK (elem mask_idx (b # q)) = Some k then elem img (b # q) else 0)"
    and "in_bounds [1, shape mask_idx ! 3, shape mask_idx ! 3] q \<Longrightarrow> elem o2 (k # b # q)
           = (if classifier MASK (elem mask_idx (b # q)) = Some k then (elem img (b # q))\<^sup>2 else 0)"
    and "in_bounds [1, shape mask_idx ! 3, shape mask_idx ! 3] q \<Longrightarrow> elem o3 (k # b # q)
           = (if classifier MASK (elem mask_idx (b # q)) = Some k then 1 else 0)"
    and "shape o1 = [length MASK, min (shape mask_idx ! 0) (shape img ! 0), 1,
                     shape mask_idx ! 3, shape mask_idx ! 3]"
    and "shape o2 = shape o1" and "shape o3 = shape o1"
proof -
  let ?m = "length MASK" and ?B = "min (shape mask_idx ! 0) (shape img ! 0)"
  let ?s = "shape mask_idx ! 3"
  let ?sdata = "pycuda_zeros sd [3 * ?m, ?B, 1, ?s, ?s]"
  let ?L = "((?B, (?s + 31) div 32, (?s + 31) div 32), (1, min 32 ?s, min 32 ?s))"
  let ?sd' = "?sdata\<lparr>elem := image_mask_split MASK mask_idx img ?B ?s ?sdata ?L\<rparr>"
  from thunk have o: "o1 = slice0 0 ?m ?sd'" "o2 = slice0 ?m (2 * ?m) ?sd'"
    "o3 = slice0 (2 * ?m) (3 * ?m) ?sd'"
    by (auto simp: SplitMask_thunk_ok[OF ok1 ok2] Let_def)
  have sh: "shape ?sd' = (3 * ?m) # [?B, 1, ?s, ?s]" by simp
  have z: "elem ?sdata = (\<lambda>p. 0)" by simp
  have m2: "min (2 * ?m) (3 * ?m) = 2 * ?m" by simp
  show "shape o1 = [?m, ?B, 1, ?s, ?s]" "shape o2 = shape o1" "shape o3 = shape o1"
    unfolding o slice0_shape[OF sh] by simp_all
  assume q: "in_bounds [1, ?s, ?s] q"
  have r: "in_bounds [?B, 1, ?s, ?s] (b # q)" using b q by simp
  note E = image_mask_split_elem[OF k r z, of mask_idx img ?L]
  show "elem o1 (k # b # q)
           = (if classifier MASK (elem mask_idx (b # q)) = Some k then elem img (b # q) else 0)"
    unfolding o slice0_elem[OF sh] using E(1) by simp
  show "elem o2 (k # b # q)
           = (if classifier MASK (elem mask_idx (b # q)) = Some k then (elem img (b # q))\<^sup>2 else 0)"
    unfolding o slice0_elem[OF sh] using E(2) by simp
  show "elem o3 (k # b # q)
           = (if classifier MASK (elem mask_idx (b # q)) = Some k then 1 else 0)"
    unfolding o slice0_elem[OF sh] using E(3) m2 by simp
qed

lemma valid_shape:
  assumes "shape_ok (shape mask_idx) = Inr True" and "length (shape mask_idx) = 4"
  shows "shape mask_idx = [shape mask_idx ! 0, 1, shape mask_idx ! 3, shape mask_idx ! 3]"
proof -
  obtain n c h w where shp: "shape mask_idx = [n, c, h, w]"
    using assms(2) by (auto simp: length_Suc_conv numeral_eq_Suc)
  with assms(1) show ?thesis by (simp add: shape_ok_def)
qed

lemma SplitMask_thunk_stats:
  assumes ok: "shape_ok (shape mask_idx) = Inr True" and r4: "length (shape mask_idx) = 4"
    and same: "shape img = shape mask_idx" and d: "distinct (map snd MASK)"
    and thunk: "SplitMask_thunk (image_mask_split MASK) (length MASK) sd [mask_idx, img]
                  = Inr ((o1, o2, o3), sd')"
    and k: "k < length MASK" and b: "b < shape mask_idx ! 0"
  shows "sum_list (map (\<lambda>q. elem o1 ([k, b] @ q)) (indices (take 3 (drop 2 (shape o1)))))
         = sum_list (map (\<lambda>q. elem img (b # q))
                         (class_pixels mask_idx (real_of_int (snd (MASK ! k))) b))"
    and "sum_list (map (\<lambda>q. elem o2 ([k, b] @ q)) (indices (take 3 (drop 2 (shape o2)))))
         = sum_list (map (\<lambda>q. (elem img (b # q))\<^sup>2)
                         (class_pixels mask_idx (real_of_int (snd (MASK ! k))) b))"
    and "sum_list (map (\<lambda>q. elem o3 ([k, b] @ q)) (indices (take 3 (drop 2 (shape o3)))))
         = real (length (class_pixels mask_idx (real_of_int (snd (MASK ! k))) b))"
proof -
  let ?v = "real_of_int (snd (MASK ! k))" and ?s = "shape mask_idx ! 3"
  let ?I = "indices [1, ?s, ?s]"
  have ok2: "shape_ok (shape img) = Inr True" using ok same by simp
  have b': "b < min (shape mask_idx ! 0) (shape img ! 0)" using b same by simp
  note E = SplitMask_thunk_spec_kernel[OF ok ok2 thunk k b']
  have tl: "tl (shape mask_idx) = [1, ?s, ?s]"
    using valid_shape[OF ok r4] by (metis list.sel(3))
  have shapes: "take 3 (drop 2 (shape o1)) = [1, ?s, ?s]"
    "take 3 (drop 2 (shape o2)) = [1, ?s, ?s]" "take 3 (drop 2 (shape o3)) = [1, ?s, ?s]"
    by (simp_all add: E(4,5,6))
  have cls: "classifier MASK x = Some k \<longleftrightarrow> x = ?v" for x
    by (rule classifier_eq_iff[OF d k])
  have "sum_list (map (\<lambda>q. elem o1 ([k, b] @ q)) ?I)
      = sum_list (map (\<lambda>q. if elem mask_idx (b # q) = ?v then elem img (b # q) else 0) ?I)"
    by (rule sum_list_map_cong) (simp add: E(1) cls)
  then show "sum_list (map (\<lambda>q. elem o1 ([k, b] @ q)) (indices (take 3 (drop 2 (shape o1)))))
         = sum_list (map (\<lambda>q. elem img (b # q)) (class_pixels mask_idx ?v b))"
    unfolding shapes class_pixels_def tl by (simp add: sum_list_map_filter')
  have "sum_list (map (\<lambda>q. elem o2 ([k, b] @ q)) ?I)
      = sum_list (map (\<lambda>q. if elem mask_idx (b # q) = ?v then (elem img (b # q))\<^sup>2 else 0) ?I)"
    by (rule sum_list_map_cong) (simp add: E(2) cls)
  then show "sum_list (map (\<lambda>q. elem o2 ([k, b] @ q)) (indices (take 3 (drop 2 (shape o2)))))
         = sum_list (map (\<lambda>q. (elem img (b # q))\<^sup>2) (class_pixels mask_idx ?v b))"
    unfolding shapes class_pixels_def tl by (simp add: sum_list_map_filter')
  have "sum_list (map (\<lambda>q. elem o3 ([k, b] @ q)) ?I)
      = sum_list (map (\<lambda>q. if elem mask_idx (b # q) = ?v then 1 else 0) ?I)"
    by (rule sum_list_map_cong) (simp add: E(3) cls)
  then show "sum_list (map (\<lambda>q. elem o3 ([k, b] @ q)) (indices (take 3 (drop 2 (shape o3)))))
         = real (length (class_pixels mask_idx ?v b))"
    unfolding shapes class_pixels_def tl by (simp add: sum_list_indicator_length)
qed

subsection \<open>The gradient device functions\<close>

lemma grad_pixel_add:
  "grad_pixel MASK og_sum og_pow mask_idx img p buf key
     = buf key + (if key = p then grad_contrib MASK og_sum og_pow mask_idx img p else 0)"
  by (auto simp: grad_pixel_def grad_contrib_def Let_def split: option.splits)

lemma fold_grad_pixel:
  "fold (grad_pixel MASK og_sum og_pow mask_idx img) ps buf key
     = buf key + sum_list (map (\<lambda>p. if p = key then grad_contrib MASK og_sum og_pow mask_idx img p
                                     else 0) ps)"
proof (induction ps arbitrary: buf)
  case Nil
  show ?case by simp
next
  case (Cons p ps)
  have h: "fold (grad_pixel MASK og_sum og_pow mask_idx img) (p # ps) buf key
        = grad_pixel MASK og_sum og_pow mask_idx img p buf key
          + sum_list (map (\<lambda>p. if p = key then grad_contrib MASK og_sum og_pow mask_idx img p
                                 else 0) ps)"
    by (simp only: fold_Cons comp_apply Cons.IH)
  have step: "grad_pixel MASK og_sum og_pow mask_idx img p buf key
        = buf key + (if key = p then grad_contrib MASK og_sum og_pow mask_idx img p else 0)"
    by (rule grad_pixel_add)
  show ?case unfolding h step by auto
qed

lemma fold_grad_pixel_elem:
  assumes "in_bounds shp p"
  shows "fold (grad_pixel MASK og_sum og_pow mask_idx img) (indices shp) (\<lambda>p. 0) p
           = grad_contrib MASK og_sum og_pow mask_idx img p"
proof -
  have mem: "p \<in> set (indices shp)" using assms by (simp only: in_set_indices)
  show ?thesis
    unfolding fold_grad_pixel
    using sum_list_single_point[OF distinct_indices, of p
        "grad_contrib MASK og_sum og_pow mask_idx img" shp] mem
    by simp
qed

lemma SplitMaskGrad_spec_kernel:
  assumes ok1: "shape_ok (shape mask_idx) = Inr True" and ok2: "shape_ok (shape img) = Inr True"
    and s: "0 < shape mask_idx ! 3"
    and mode: "og_sum \<noteq> DisconnectedType \<or> og_pow \<noteq> DisconnectedType"
  shows "\<exists>self node g.
      SplitMask_grad (mask_idx, img) (og_sum, og_pow, og_count) = Inr (zeros_like mask_idx, self, node)
      \<and> SplitMaskGrad_thunk (get_function MASK) self node g0 = Inr g
      \<and> shape g = [min (shape mask_idx ! 0) (shape img ! 0), 1, shape mask_idx ! 3, shape mask_idx ! 3]
      \<and> elem g = fold (grad_pixel MASK
                          (case og_sum of DisconnectedType \<Rightarrow> None | Connected gs \<Rightarrow> Some gs)
                          (case og_pow of DisconnectedType \<Rightarrow> None | Connected gp \<Rightarrow> Some gp)
                          mask_idx img)
                       (indices [min (shape mask_idx ! 0) (shape img ! 0), 1,
                                 shape mask_idx ! 3, shape mask_idx ! 3])
                       (\<lambda>p. 0)"
proof -
  note D1 = shape_ok_TrueD[OF ok1] and D2 = shape_ok_TrueD[OF ok2]
  have cd: "ceil_div (shape mask_idx ! 3) (min 32 (shape mask_idx ! 3))
            = Inr ((shape mask_idx ! 3 + min 32 (shape mask_idx ! 3) - 1) div min 32 (shape mask_idx ! 3))"
    using s by (simp add: ceil_div_def)
  show ?thesis
  proof (cases og_sum)
    case DisconnectedType
    with mode obtain gp where gp: "og_pow = Connected gp" by (cases og_pow) auto
    show ?thesis
      using D1 D2 ok1 ok2
      by (simp add: DisconnectedType gp SplitMask_grad_def SplitMaskGrad_init_def
          SplitMaskGrad_make_node_def SplitMaskGrad_thunk_def list_get_def py_assert_def cd
          Let_def get_function_def image_mask_split_grad_pow_def)
  next
    case (Connected gs)
    show ?thesis
    proof (cases og_pow)
      case DisconnectedType
      show ?thesis
        using D1 D2 ok1 ok2
        by (simp add: DisconnectedType Connected SplitMask_grad_def SplitMaskGrad_init_def
            SplitMaskGrad_make_node_def SplitMaskGrad_thunk_def list_get_def py_assert_def cd
            Let_def get_function_def image_mask_split_grad_sum_def)
    next
      case gp: (Connected gp)
      show ?thesis
        using D1 D2 ok1 ok2
        by (simp add: gp Connected SplitMask_grad_def SplitMaskGrad_init_def
            SplitMaskGrad_make_node_def SplitMaskGrad_thunk_def list_get_def py_assert_def cd
            Let_def get_function_def image_mask_split_grad_sum_pow_def)
    qed
  qed
qed

subsection \<open>The weighted total as a function of one pixel\<close>

lemma upstream_loss_eq:
  assumes ok: "shape_ok (shape mask_idx) = Inr True" and r4: "length (shape mask_idx) = 4"
    and same: "shape img = shape mask_idx"
  shows "upstream_loss MASK mask_idx og_sum og_pow img =
     sum_list (map (\<lambda>x.
           og_weight og_sum (fst x) (snd x)
             * sum_list (map (\<lambda>q. if classifier MASK (elem mask_idx (snd x # q)) = Some (fst x)
                                    then elem img (snd x # q) else 0)
                             (indices [1, shape mask_idx ! 3, shape mask_idx ! 3]))
         + og_weight og_pow (fst x) (snd x)
             * sum_list (map (\<lambda>q. if classifier MASK (elem mask_idx (snd x # q)) = Some (fst x)
                                    then (elem img (snd x # q))\<^sup>2 else 0)
                             (indices [1, shape mask_idx ! 3, shape mask_idx ! 3])))
       (List.product [0..<length MASK] [0..<shape mask_idx ! 0]))"
proof -
  let ?s = "shape mask_idx ! 3" and ?N = "shape mask_idx ! 0"
  let ?I = "indices [1, ?s, ?s]"
  have ok2: "shape_ok (shape img) = Inr True" using ok same by simp
  obtain o_sum o_pow o_count sd' where
    thunk: "SplitMask_thunk (image_mask_split MASK) (length MASK) None [mask_idx, img]
              = Inr ((o_sum, o_pow, o_count), sd')"
    by (simp add: SplitMask_thunk_ok[OF ok ok2] Let_def)
  have sh: "shape o_sum = [length MASK, ?N, 1, ?s, ?s]" "shape o_pow = [length MASK, ?N, 1, ?s, ?s]"
    using thunk by (auto simp: SplitMask_thunk_ok[OF ok ok2] Let_def slice0_shape same)
  have el: "elem o_sum (k # b # q)
              = (if classifier MASK (elem mask_idx (b # q)) = Some k then elem img (b # q) else 0)"
    "elem o_pow (k # b # q)
              = (if classifier MASK (elem mask_idx (b # q)) = Some k then (elem img (b # q))\<^sup>2 else 0)"
    if "k < length MASK" "b < ?N" "q \<in> set ?I" for k b q
  proof -
    from that(2) have b': "b < min (shape mask_idx ! 0) (shape img ! 0)" by (simp add: same)
    from that(3) have q: "in_bounds [1, ?s, ?s] q" by (simp only: in_set_indices)
    show "elem o_sum (k # b # q)
              = (if classifier MASK (elem mask_idx (b # q)) = Some k then elem img (b # q) else 0)"
      by (rule SplitMask_thunk_spec_kernel(1)[OF ok ok2 thunk that(1) b' q])
    show "elem o_pow (k # b # q)
              = (if classifier MASK (elem mask_idx (b # q)) = Some k then (elem img (b # q))\<^sup>2 else 0)"
      by (rule SplitMask_thunk_spec_kernel(2)[OF ok ok2 thunk that(1) b' q])
  qed
  have tot: "sum_list (map (\<lambda>q. elem o_sum (k # b # q)) ?I)
           = sum_list (map (\<lambda>q. if classifier MASK (elem mask_idx (b # q)) = Some k
                                    then elem img (b # q) else 0) ?I)"
    "sum_list (map (\<lambda>q. elem o_pow (k # b # q)) ?I)
           = sum_list (map (\<lambda>q. if classifier MASK (elem mask_idx (b # q)) = Some k
                                    then (elem img (b # q))\<^sup>2 else 0) ?I)"
    if "k < length MASK" "b < ?N" for k b
    by (rule sum_list_map_cong, simp add: el[OF that])+
  have "upstream_loss MASK mask_idx og_sum og_pow img =
      sum_list (map (\<lambda>x.
                og_weight og_sum (fst x) (snd x)
                  * sum_list (map (\<lambda>q. elem o_sum (fst x # snd x # q)) ?I)
              + og_weight og_pow (fst x) (snd x)
                  * sum_list (map (\<lambda>q. elem o_pow (fst x # snd x # q)) ?I))
            (List.product [0..<length MASK] [0..<?N]))"
    by (simp add: upstream_loss_def thunk sh) (simp add: case_prod_unfold)
  also have "\<dots> = sum_list (map (\<lambda>x.
           og_weight og_sum (fst x) (snd x)
             * sum_list (map (\<lambda>q. if classifier MASK (elem mask_idx (snd x # q)) = Some (fst x)
                                    then elem img (snd x # q) else 0) ?I)
         + og_weight og_pow (fst x) (snd x)
             * sum_list (map (\<lambda>q. if classifier MASK (elem mask_idx (snd x # q)) = Some (fst x)
                                    then (elem img (snd x # q))\<^sup>2 else 0) ?I))
       (List.product [0..<length MASK] [0..<?N]))"
  proof (rule sum_list_map_cong)
    fix x assume "x \<in> set (List.product [0..<length MASK] [0..<?N])"
    then have kb: "fst x < length MASK" "snd x < ?N" by auto
    show "og_weight og_sum (fst x) (snd x)
                  * sum_list (map (\<lambda>q. elem o_sum (fst x # snd x # q)) ?I)
              + og_weight og_pow (fst x) (snd x)
                  * sum_list (map (\<lambda>q. elem o_pow (fst x # snd x # q)) ?I)
        = og_weight og_sum (fst x) (snd x)
             * sum_list (map (\<lambda>q. if classifier MASK (elem mask_idx (snd x # q)) = Some (fst x)
                                    then elem img (snd x # q) else 0) ?I)
         + og_weight og_pow (fst x) (snd x)
             * sum_list (map (\<lambda>q. if classifier MASK (elem mask_idx (snd x # q)) = Some (fst x)
                                    then (elem img (snd x # q))\<^sup>2 else 0) ?I)"
      unfolding tot[OF kb] ..
  qed
  finally show ?thesis .
qed

lemma sum_list_affine:
  fixes w1 w2 a1 a2 n :: "'a \<Rightarrow> real"
  shows "sum_list (map (\<lambda>x. w1 x * (a1 x + t * n x) + w2 x * (a2 x + t\<^sup>2 * n x)) xs)
       = sum_list (map (\<lambda>x. w1 x * a1 x + w2 x * a2 x) xs)
         + sum_list (map (\<lambda>x. w1 x * n x) xs) * t
         + sum_list (map (\<lambda>x. w2 x * n x) xs) * t\<^sup>2"
  by (induction xs) (simp_all add: algebra_simps)

lemma sum_list_split_point:
  fixes g :: "'a \<Rightarrow> real"
  shows "sum_list (map (\<lambda>q. if C q then (if h q = p then t else g q) else 0) xs)
       = sum_list (map (\<lambda>q. if C q \<and> h q \<noteq> p then g q else 0) xs)
         + t * sum_list (map (\<lambda>q. if C q \<and> h q = p then 1 else 0) xs)"
  by (induction xs) (simp_all add: algebra_simps)

lemma quadratic_DERIV:
  fixes A G1 G2 :: real
  shows "((\<lambda>t. A + G1 * t + G2 * t\<^sup>2) has_field_derivative (G1 + 2 * t0 * G2)) (at t0)"
  by (auto intro!: derivative_eq_intros)

lemma og_weight_option:
  "(case (case g of DisconnectedType \<Rightarrow> None | Connected t \<Rightarrow> Some t) of
      None \<Rightarrow> 0 | Some t \<Rightarrow> elem t [k, b]) = og_weight g k b"
  "(case (case g of DisconnectedType \<Rightarrow> None | Connected t \<Rightarrow> Some t) of
      None \<Rightarrow> 0 | Some t \<Rightarrow> x * elem t [k, b]) = x * og_weight g k b"
  by (cases g; simp add: og_weight_def)+

lemma upstream_loss_point:
  assumes ok: "shape_ok (shape mask_idx) = Inr True" and r4: "length (shape mask_idx) = 4"
    and same: "shape img = shape mask_idx"
    and p: "in_bounds (shape mask_idx) p"
  shows "\<exists>A. \<forall>t. upstream_loss MASK mask_idx og_sum og_pow (img\<lparr>elem := (elem img)(p := t)\<rparr>)
           = A + (case classifier MASK (elem mask_idx p) of None \<Rightarrow> 0
                  | Some c \<Rightarrow> og_weight og_sum c (hd p)) * t
               + (case classifier MASK (elem mask_idx p) of None \<Rightarrow> 0
                  | Some c \<Rightarrow> og_weight og_pow c (hd p)) * t\<^sup>2"
proof -
  define N s where "N = shape mask_idx ! 0" and "s = shape mask_idx ! 3"
  define I where "I = indices [1, s, s]"
  define X where "X = List.product [0..<length MASK] [0..<N]"
  have shp: "shape mask_idx = [N, 1, s, s]"
    unfolding N_def s_def by (rule valid_shape[OF ok r4])
  from p obtain pb pq where pdef: "p = pb # pq" and pb: "pb < N" and pq: "in_bounds [1, s, s] pq"
    by (auto simp: shp in_bounds_Cons)
  have pqI: "pq \<in> set I" unfolding I_def using pq by (simp only: in_set_indices)
  have dI: "distinct I" unfolding I_def by (rule distinct_indices)
  have dX: "distinct X" unfolding X_def by (simp add: distinct_product)
  define C where "C x q \<longleftrightarrow> classifier MASK (elem mask_idx (snd x # q)) = Some (fst x)"
    for x :: "nat \<times> nat" and q
  define n where "n x = (if snd x = pb \<and> classifier MASK (elem mask_idx p) = Some (fst x)
                         then 1 else (0::real))" for x :: "nat \<times> nat"
  define S' where "S' x = sum_list (map (\<lambda>q. if C x q \<and> snd x # q \<noteq> p
                                              then elem img (snd x # q) else 0) I)"
    for x :: "nat \<times> nat"
  define P' where "P' x = sum_list (map (\<lambda>q. if C x q \<and> snd x # q \<noteq> p
                                              then (elem img (snd x # q))\<^sup>2 else 0) I)"
    for x :: "nat \<times> nat"
  define ws wp where "ws x = og_weight og_sum (fst x) (snd x)"
    and "wp x = og_weight og_pow (fst x) (snd x)" for x :: "nat \<times> nat"
  have nx: "sum_list (map (\<lambda>q. if C x q \<and> snd x # q = p then 1 else 0) I) = n x" for x
  proof -
    have "sum_list (map (\<lambda>q. if C x q \<and> snd x # q = p then 1 else (0::real)) I)
        = sum_list (map (\<lambda>q. if q = pq then n x else 0) I)"
      by (rule sum_list_map_cong) (auto simp: C_def n_def pdef)
    also have "\<dots> = n x"
      using sum_list_single_point[OF dI, of pq "\<lambda>q. n x"] pqI by simp
    finally show ?thesis .
  qed
  have St: "sum_list (map (\<lambda>q. if C x q then ((elem img)(p := t)) (snd x # q) else 0) I)
            = S' x + t * n x" for x t
  proof -
    have "sum_list (map (\<lambda>q. if C x q then ((elem img)(p := t)) (snd x # q) else 0) I)
        = sum_list (map (\<lambda>q. if C x q then (if snd x # q = p then t
                                              else elem img (snd x # q)) else 0) I)"
      by (rule sum_list_map_cong) simp
    then show ?thesis
      using sum_list_split_point[of "C x" "\<lambda>q. snd x # q" p t "\<lambda>q. elem img (snd x # q)" I]
      by (simp add: S'_def nx)
  qed
  have Pt: "sum_list (map (\<lambda>q. if C x q then (((elem img)(p := t)) (snd x # q))\<^sup>2 else 0) I)
            = P' x + t\<^sup>2 * n x" for x t
  proof -
    have "sum_list (map (\<lambda>q. if C x q then (((elem img)(p := t)) (snd x # q))\<^sup>2 else 0) I)
        = sum_list (map (\<lambda>q. if C x q then (if snd x # q = p then t\<^sup>2
                                              else (elem img (snd x # q))\<^sup>2) else 0) I)"
      by (rule sum_list_map_cong) simp
    then show ?thesis
      using sum_list_split_point[of "C x" "\<lambda>q. snd x # q" p "t\<^sup>2"
          "\<lambda>q. (elem img (snd x # q))\<^sup>2" I]
      by (simp add: P'_def nx)
  qed
  have L: "upstream_loss MASK mask_idx og_sum og_pow (img\<lparr>elem := (elem img)(p := t)\<rparr>)
         = sum_list (map (\<lambda>x. ws x * S' x + wp x * P' x) X)
           + sum_list (map (\<lambda>x. ws x * n x) X) * t
           + sum_list (map (\<lambda>x. wp x * n x) X) * t\<^sup>2" for t
  proof -
    have same': "shape (img\<lparr>elem := (elem img)(p := t)\<rparr>) = shape mask_idx"
      by (simp add: same)
    have e: "elem (img\<lparr>elem := (elem img)(p := t)\<rparr>) = (elem img)(p := t)"
      by simp
    have "upstream_loss MASK mask_idx og_sum og_pow (img\<lparr>elem := (elem img)(p := t)\<rparr>)
        = sum_list (map (\<lambda>x.
              ws x * sum_list (map (\<lambda>q. if C x q then ((elem img)(p := t)) (snd x # q) else 0) I)
            + wp x * sum_list (map (\<lambda>q. if C x q then (((elem img)(p := t)) (snd x # q))\<^sup>2
                                            else 0) I)) X)"
      unfolding upstream_loss_eq[OF ok r4 same'] e C_def I_def X_def ws_def wp_def N_def s_def
      by (rule refl)
    also have "\<dots> = sum_list (map (\<lambda>x. ws x * (S' x + t * n x) + wp x * (P' x + t\<^sup>2 * n x)) X)"
      unfolding St Pt by (rule refl)
    finally show ?thesis by (simp only: sum_list_affine)
  qed
  have G: "sum_list (map (\<lambda>x. w x * n x) X)
           = (case classifier MASK (elem mask_idx p) of None \<Rightarrow> 0
              | Some c \<Rightarrow> w (c, hd p))" for w :: "nat \<times> nat \<Rightarrow> real"
  proof (cases "classifier MASK (elem mask_idx p)")
    case None
    then have "sum_list (map (\<lambda>x. w x * n x) X) = sum_list (map (\<lambda>x. 0) X)"
      by (simp add: n_def)
    then show ?thesis by (simp add: None)
  next
    case (Some c)
    from classifier_Some[OF Some] have "c < length MASK" by simp
    then have mem: "(c, pb) \<in> set X" using pb by (simp add: X_def)
    have "sum_list (map (\<lambda>x. w x * n x) X)
        = sum_list (map (\<lambda>x. if x = (c, pb) then w x else 0) X)"
      by (rule sum_list_map_cong) (auto simp: n_def Some)
    also have "\<dots> = w (c, pb)"
      using sum_list_single_point[OF dX, of "(c, pb)" w] mem by simp
    finally show ?thesis using Some by (simp add: pdef)
  qed
  have G1: "sum_list (map (\<lambda>x. ws x * n x) X)
           = (case classifier MASK (elem mask_idx p) of None \<Rightarrow> 0
              | Some c \<Rightarrow> og_weight og_sum c (hd p))"
    unfolding G[of ws] by (simp add: ws_def split: option.split)
  have G2: "sum_list (map (\<lambda>x. wp x * n x) X)
           = (case classifier MASK (elem mask_idx p) of None \<Rightarrow> 0
              | Some c \<Rightarrow> og_weight og_pow c (hd p))"
    unfolding G[of wp] by (simp add: wp_def split: option.split)
  show ?thesis
    by (intro exI[of _ "sum_list (map (\<lambda>x. ws x * S' x + wp x * P' x) X)"] allI)
       (simp only: L G1 G2)
qed

subsection \<open>Batch sizes that differ\<close>

lemma pycuda_zeros_eq: "pycuda_zeros arr shp = zeros shp"
  by (cases arr) (auto simp: pycuda_zeros_def zeros_def)

lemma split_loop_total_rows:
  "length (shape mask_idx) = 4 \<Longrightarrow> length (shape img) = 4 \<Longrightarrow>
   tl (shape img) = tl (shape mask_idx) \<Longrightarrow>
   shape mask_idx ! 0 = shape img ! 0 \<or> (shape mask_idx ! 0 = 1 \<and> 0 < shape img ! 0) \<Longrightarrow>
   shape cnt ! 1 = shape img ! 0 \<Longrightarrow>
   \<exists>r. split_loop mask_idx img es (cnt, sl) = Inr r"
proof (induction es arbitrary: cnt sl)
  case Nil
  show ?case by simp
next
  case (Cons e es)
  obtain i name v where e: "e = (i, name, v)" by (cases e)
  obtain n1 c h w where m: "shape mask_idx = [n1, c, h, w]"
    using Cons.prems(1) by (auto simp: length_Suc_conv numeral_eq_Suc)
  obtain n2 where im: "shape img = [n2, c, h, w]"
    using Cons.prems(2,3) m by (cases "shape img") auto
  have inb: "in_bounds [n1, c, h, w] q \<Longrightarrow> in_bounds [n2, c, h, w] q" for q
    using Cons.prems(4) by (cases q) (auto simp: m im in_bounds_def)
  show ?case
    using Cons.prems Cons.IH inb
    by (auto simp: e Let_def sum_axes3_def set_subtensor_row_def set_subtensor_nonzero_def
        list_ex_iff m im)
qed

lemma theano_split_mask_returns:
  assumes "length (shape mask_idx) = 4" and "length (shape img) = 4"
    and "tl (shape img) = tl (shape mask_idx)" and "MASK \<noteq> []"
    and "shape mask_idx ! 0 = shape img ! 0 \<or> (shape mask_idx ! 0 = 1 \<and> 0 < shape img ! 0)"
  shows "\<exists>r. theano_split_mask MASK mask_idx img = Inr r"
proof -
  from assms(2) have ne: "shape img \<noteq> []" by auto
  obtain count' sl where
    loop: "split_loop mask_idx img (enumerate 0 MASK) (zeros [length MASK, shape img ! 0], [])
             = Inr (count', sl)"
    using split_loop_total_rows[OF assms(1,2,3,5), of "zeros [length MASK, shape img ! 0]"
        "enumerate 0 MASK" "[]"]
    by auto
  from split_loop_result[OF loop] assms(4) have "sl \<noteq> []" by simp
  then show ?thesis
    using ne loop by (cases sl) (simp_all add: theano_split_mask_def list_get_def Let_def T_stack_def)
qed

lemma theano_split_mask_batch_mismatch:
  assumes "length (shape mask_idx) = 4" and "shape img \<noteq> []" and "MASK \<noteq> []"
    and "shape mask_idx ! 0 \<noteq> shape img ! 0" and "shape mask_idx ! 0 \<noteq> 1"
  shows "theano_split_mask MASK mask_idx img = Inl ValueError"
proof -
  obtain e es where M: "MASK = e # es" using assms(3) by (cases MASK) auto
  obtain name v where e: "e = (name, v)" by (cases e)
  obtain n1 c h w where m: "shape mask_idx = [n1, c, h, w]"
    using assms(1) by (auto simp: length_Suc_conv numeral_eq_Suc)
  show ?thesis
    using assms(2,4,5)
    by (simp add: theano_split_mask_def list_get_def Let_def M e
        sum_axes3_def set_subtensor_row_def m)
qed

lemma image_mask_split_rows:
  assumes "\<forall>p. in_bounds [B, 1, s, s] p \<longrightarrow> elem mask_idx' p = elem mask_idx p \<and> elem img' p = elem img p"
  shows "image_mask_split MASK mask_idx' img' B s sd L = image_mask_split MASK mask_idx img B s sd L"
  unfolding image_mask_split_def
proof (rule fold_cong)
  fix p assume "p \<in> set (indices [B, 1, s, s])"
  then have "in_bounds [B, 1, s, s] p" by (simp only: in_set_indices)
  with assms have e: "elem mask_idx' p = elem mask_idx p" "elem img' p = elem img p" by simp_all
  show "split_pixel MASK mask_idx' img' p = split_pixel MASK mask_idx img p"
    unfolding split_pixel_def fun_eq_iff e by (intro allI refl)
qed (rule refl)+

lemma grad_pixel_rows:
  assumes "\<forall>p. in_bounds [B, 1, s, s] p \<longrightarrow> elem mask_idx' p = elem mask_idx p \<and> elem img' p = elem img p"
  shows "fold (grad_pixel MASK gs gp mask_idx' img') (indices [B, 1, s, s]) buf
       = fold (grad_pixel MASK gs gp mask_idx img) (indices [B, 1, s, s]) buf"
proof (rule fold_cong)
  fix p assume "p \<in> set (indices [B, 1, s, s])"
  then have "in_bounds [B, 1, s, s] p" by (simp only: in_set_indices)
  with assms have e: "elem mask_idx' p = elem mask_idx p" "elem img' p = elem img p" by simp_all
  show "grad_pixel MASK gs gp mask_idx' img' p = grad_pixel MASK gs gp mask_idx img p"
    unfolding grad_pixel_def fun_eq_iff e by (intro allI refl)
qed (rule refl)+

lemma get_function_rows:
  assumes "\<forall>p. in_bounds [B, 1, s, s] p \<longrightarrow> elem mask_idx' p = elem mask_idx p \<and> elem img' p = elem img p"
  shows "get_function MASK name mask_idx' img' ogs B s buf L
       = get_function MASK name mask_idx img ogs B s buf L"
  using grad_pixel_rows[OF assms]
  by (simp add: get_function_def image_mask_split_grad_sum_pow_def image_mask_split_grad_sum_def
      image_mask_split_grad_pow_def)

lemma SplitMask_grad_node:
  assumes "SplitMask_grad (mask_idx, img) (og_sum, og_pow, og_count) = Inr (z, self, node)"
  shows "node = mask_idx # img # drop 2 node"
    and "(''sum'' \<in> set (connected self) \<and> ''pow'' \<in> set (connected self) \<and> length node = 4)
         \<or> (''sum'' \<in> set (connected self) \<and> ''pow'' \<notin> set (connected self) \<and> length node = 3)
         \<or> (''sum'' \<notin> set (connected self) \<and> ''pow'' \<in> set (connected self) \<and> length node = 3)"
  using assms
  by (cases og_sum; cases og_pow;
      auto simp: SplitMask_grad_def SplitMaskGrad_init_def SplitMaskGrad_make_node_def Let_def
        bindE_Inr_iff)+

lemma SplitMaskGrad_thunk_ok:
  assumes ok1: "shape_ok (shape mask_idx) = Inr True" and ok2: "shape_ok (shape img) = Inr True"
    and mode: "(''sum'' \<in> set (connected self) \<and> ''pow'' \<in> set (connected self) \<and> length ogs = 2)
         \<or> (''sum'' \<in> set (connected self) \<and> ''pow'' \<notin> set (connected self) \<and> length ogs = 1)
         \<or> (''sum'' \<notin> set (connected self) \<and> ''pow'' \<in> set (connected self) \<and> length ogs = 1)"
  shows "SplitMaskGrad_thunk gf self (mask_idx # img # ogs) g0 =
     (let B = min (shape mask_idx ! 0) (shape img ! 0);
          s = shape mask_idx ! 3;
          bd = min 32 s
      in if s = 0 then Inl ZeroDivisionError
         else Inr \<lparr>shape = [B, 1, s, s],
                    elem = gf (function_name self) mask_idx img ogs B s (zeros [B, 1, s, s])
                             ((B, (s + bd - 1) div bd, (s + bd - 1) div bd), (1, bd, bd))\<rparr>)"
proof -
  have l2: "length ogs = 2 \<Longrightarrow> ogs = [ogs ! 0, ogs ! 1]"
    by (cases ogs; cases "tl ogs") auto
  have l1: "length ogs = 1 \<Longrightarrow> ogs = [ogs ! 0]"
    by (cases ogs) auto
  show ?thesis
    using ok1 ok2 mode l1 l2
    by (auto simp: SplitMaskGrad_thunk_def list_get_def py_assert_def ceil_div_def Let_def
        pycuda_zeros_eq zeros_def)
qed

section \<open>The claims\<close>

subsection \<open>Connection modes of the gradient operator\<close>

text \<open>
  C6. Constructing the gradient operator with neither \<open>sum\<close> nor \<open>pow\<close> connected raises
  \<open>ValueError\<close> ("At least sum or pow gradient must be provided"), and so does applying it, or
  taking the gradient of the forward operator, when both upstream gradients are
  disconnected. With at least one of them no such error is raised, and the constructor fixes
  the mode: the name of the device function is \<open>image_mask_split_grad_sum_pow\<close>,
  \<open>image_mask_split_grad_sum\<close> or \<open>image_mask_split_grad_pow\<close>.
\<close>

theorem SplitMaskGrad_needs_a_gradient:
  "(SplitMaskGrad_init (Some c) = Inl ValueError \<longleftrightarrow> ''sum'' \<notin> set c \<and> ''pow'' \<notin> set c)
   \<and> (SplitMaskGrad_make_node mask_idx img og_sum og_pow = Inl ValueError
        \<longleftrightarrow> og_sum = DisconnectedType \<and> og_pow = DisconnectedType)
   \<and> (SplitMask_grad (mask_idx, img) (og_sum, og_pow, og_count) = Inl ValueError
        \<longleftrightarrow> og_sum = DisconnectedType \<and> og_pow = DisconnectedType)
   \<and> (og_sum \<noteq> DisconnectedType \<or> og_pow \<noteq> DisconnectedType \<longrightarrow>
        (\<exists>z self node. SplitMask_grad (mask_idx, img) (og_sum, og_pow, og_count) = Inr (z, self, node)
           \<and> SplitMaskGrad_make_node mask_idx img og_sum og_pow = Inr node
           \<and> function_name self =
               (if og_sum \<noteq> DisconnectedType \<and> og_pow \<noteq> DisconnectedType
                  then ''image_mask_split_grad_sum_pow''
                else if og_sum \<noteq> DisconnectedType then ''image_mask_split_grad_sum''
                else ''image_mask_split_grad_pow'')))
   \<and> (''sum'' \<in> set c \<or> ''pow'' \<in> set c \<longrightarrow>
        SplitMaskGrad_init (Some c) =
          Inr \<lparr>connected = c,
               function_name =
                 (if ''sum'' \<in> set c \<and> ''pow'' \<in> set c then ''image_mask_split_grad_sum_pow''
                  else if ''sum'' \<in> set c then ''image_mask_split_grad_sum''
                  else ''image_mask_split_grad_pow'')\<rparr>)"
  by (auto simp: SplitMaskGrad_init_def SplitMaskGrad_make_node_def SplitMask_grad_def Let_def)

theorem SplitMaskGrad_needs_a_gradient_witness:
  "SplitMaskGrad_init (Some [''pow'']) =
     Inr \<lparr>connected = [''pow''], function_name = ''image_mask_split_grad_pow''\<rparr>
   \<and> SplitMaskGrad_init (Some []) = Inl ValueError
   \<and> (\<exists>z self node.
         SplitMask_grad (zeros [1, 1, 2, 2], zeros [1, 1, 2, 2])
           (DisconnectedType, Connected (zeros [2, 1]), DisconnectedType) = Inr (z, self, node)
         \<and> function_name self = ''image_mask_split_grad_pow'')"
  using SplitMaskGrad_needs_a_gradient
    [of "[''pow'']" "zeros [1, 1, 2, 2]" "zeros [1, 1, 2, 2]"
        DisconnectedType "Connected (zeros [2, 1])" DisconnectedType]
    SplitMaskGrad_needs_a_gradient
    [of "[]" "zeros [1, 1, 2, 2]" "zeros [1, 1, 2, 2]"
        DisconnectedType "Connected (zeros [2, 1])" DisconnectedType]
  by auto

subsection \<open>Input checks of the forward operator\<close>

text \<open>
  C7 (as amended). A call of the forward operator returns exactly when both inputs are
  32-bit floats and each input, taken on its own, has at least four axes, equal extents on
  axes 2 and 3, an even extent there and a single channel. An input that is not a 32-bit
  float aborts the call with the \<open>TypeError\<close> of the conversion to a device variable; the two
  assertions on the element types come after the conversion and never fail. With two 32-bit
  float inputs the call fails an assertion exactly when an input of at least four axes fails
  the check on its own shape, and raises \<open>IndexError\<close> exactly when an input of fewer than
  four axes is reached. The call does not compare the spatial shape of the label map with
  that of the image, and does not reject inputs of more than four axes.
\<close>

theorem cuda_split_mask_checks:
  "((\<exists>r. cuda_split_mask k m sd (d1, mask_idx) (d2, img) = Inr r) \<longleftrightarrow>
      d1 = Float32 \<and> d2 = Float32
      \<and> shape_ok (shape mask_idx) = Inr True \<and> shape_ok (shape img) = Inr True)
   \<and> (cuda_split_mask k m sd (d1, mask_idx) (d2, img) = Inl TypeError \<longleftrightarrow>
        d1 \<noteq> Float32 \<or> d2 \<noteq> Float32)
   \<and> (cuda_split_mask k m sd (d1, mask_idx) (d2, img) = Inl AssertionError \<longleftrightarrow>
        d1 = Float32 \<and> d2 = Float32
        \<and> ((shape img \<noteq> [] \<and> shape_ok (shape mask_idx) = Inr False)
           \<or> (shape_ok (shape mask_idx) = Inr True \<and> shape_ok (shape img) = Inr False)))
   \<and> (cuda_split_mask k m sd (d1, mask_idx) (d2, img) = Inl IndexError \<longleftrightarrow>
        d1 = Float32 \<and> d2 = Float32
        \<and> (length (shape mask_idx) < 4 \<or> shape img = []
           \<or> (shape_ok (shape mask_idx) = Inr True \<and> length (shape img) < 4)))"
  using shape_ok_cases[of "shape mask_idx"] shape_ok_cases[of "shape img"]
  apply (simp add: cuda_split_mask_def SplitMask_make_node_def contiguouse_def py_assert_def
      SplitMask_thunk_def list_get_def ceil_div_def Let_def)
  apply (auto simp: shape_ok_def split: if_splits)
  done

theorem cuda_split_mask_checks_witness:
  "(\<exists>r. cuda_split_mask (image_mask_split MASK_AB) 2 None
          (Float32, zeros [3, 1, 4, 4]) (Float32, zeros [2, 1, 4, 4]) = Inr r)
   \<and> cuda_split_mask (image_mask_split MASK_AB) 2 None
          (Float64, zeros [3, 1, 4, 4]) (Float32, zeros [2, 1, 4, 4]) = Inl TypeError
   \<and> cuda_split_mask (image_mask_split MASK_AB) 2 None
          (Float32, zeros [3, 1, 4, 4]) (Float32, zeros [2, 1, 3, 3]) = Inl AssertionError
   \<and> cuda_split_mask (image_mask_split MASK_AB) 2 None
          (Float32, zeros [3, 1, 4, 4]) (Float32, zeros [2, 4, 4]) = Inl IndexError"
  using cuda_split_mask_checks
      [of "image_mask_split MASK_AB" 2 None Float32 "zeros [3, 1, 4, 4]" Float32 "zeros [2, 1, 4, 4]"]
    cuda_split_mask_checks
      [of "image_mask_split MASK_AB" 2 None Float64 "zeros [3, 1, 4, 4]" Float32 "zeros [2, 1, 4, 4]"]
    cuda_split_mask_checks
      [of "image_mask_split MASK_AB" 2 None Float32 "zeros [3, 1, 4, 4]" Float32 "zeros [2, 1, 3, 3]"]
    cuda_split_mask_checks
      [of "image_mask_split MASK_AB" 2 None Float32 "zeros [3, 1, 4, 4]" Float32 "zeros [2, 4, 4]"]
  by (simp add: shape_ok_def zeros_def)

text \<open>
  The claim as first stated fails: a label map of side 4 and an image of side 2 violate the
  equality of the spatial shapes, and the call raises nothing.
\<close>

theorem cuda_split_mask_unequal_sides_accepted:
  "drop 2 (shape (zeros [1, 1, 4, 4])) \<noteq> drop 2 (shape (zeros [1, 1, 2, 2]))
   \<and> \<not> isl (cuda_split_mask (image_mask_split MASK_AB) 2 None
              (Float32, zeros [1, 1, 4, 4]) (Float32, zeros [1, 1, 2, 2]))"
  by (simp add: cuda_split_mask_def SplitMask_make_node_def contiguouse_def py_assert_def
      SplitMask_thunk_def list_get_def ceil_div_def Let_def shape_ok_def zeros_def)

subsection \<open>Gradient of the label map\<close>

text \<open>
  C8. In each of the three connection modes (at least one upstream gradient is connected),
  \<open>SplitMask.grad\<close> returns for the label map the array \<open>zeros_like\<close> of the label map: it
  has the shape of the label map and is zero at every index.
\<close>

theorem SplitMask_grad_label_map_zero:
  "og_sum \<noteq> DisconnectedType \<or> og_pow \<noteq> DisconnectedType \<Longrightarrow>
     (\<exists>node. SplitMask_grad (mask_idx, img) (og_sum, og_pow, og_count)
               = Inr (zeros_like mask_idx, node))
     \<and> shape (zeros_like mask_idx) = shape mask_idx
     \<and> elem (zeros_like mask_idx) p = 0"
  by (auto simp: SplitMaskGrad_init_def SplitMaskGrad_make_node_def SplitMask_grad_def Let_def
      zeros_like_def zeros_def)

theorem SplitMask_grad_label_map_zero_witness:
  "(\<exists>node. SplitMask_grad (zeros [1, 1, 2, 2], zeros [1, 1, 2, 2])
              (Connected (zeros [2, 1]), DisconnectedType, DisconnectedType)
            = Inr (zeros_like (zeros [1, 1, 2, 2]), node))
   \<and> shape (zeros_like (zeros [1, 1, 2, 2])) = [1, 1, 2, 2]
   \<and> elem (zeros_like (zeros [1, 1, 2, 2])) [0, 0, 1, 1] = 0"
  using SplitMask_grad_label_map_zero
      [of "Connected (zeros [2, 1])" DisconnectedType "zeros [1, 1, 2, 2]" "zeros [1, 1, 2, 2]"
          DisconnectedType "[0, 0, 1, 1]"]
  by (simp add: zeros_def)

subsection \<open>Effective batch size\<close>

text \<open>
  C5 (as amended). Let both inputs pass the shape check, with batch sizes \<open>N1\<close> and \<open>N2\<close>,
  \<open>B = min(N1, N2)\<close> and side length \<open>s\<close>.

  \<^item> The forward thunk returns for every device function: it hands the device function the
    batch size \<open>B\<close>, a zero-filled scratch buffer of shape \<open>(3 * m, B, 1, s, s)\<close> and a grid of
    \<open>B\<close> blocks along the first axis, and its three outputs are the three thirds of that
    buffer, each of shape \<open>(m, B, 1, s, s)\<close>.
  \<^item> With the device function modelled from the spec, the result does not change when the
    inputs are replaced by arrays of the same shapes that agree with them on the first \<open>B\<close>
    images: the rows beyond \<open>B\<close> are ignored.
  \<^item> The gradient thunk of the node built by \<open>SplitMask.grad\<close> does the same for \<open>0 < s\<close>: the
    device function of the mode receives \<open>B\<close> and a zero-filled buffer of shape
    \<open>(B, 1, s, s)\<close>, which is the gradient returned; the rows beyond \<open>B\<close> are ignored by the
    device functions modelled from the spec. At side length zero the gradient thunk raises
    \<open>ZeroDivisionError\<close>, whatever the batch sizes are.
  \<^item> The reference implementation does not use \<open>min(N1, N2)\<close>: when it returns, its volumes
    have the batch size \<open>N2\<close> of the image, and for a label map of four axes with \<open>N1\<close>
    different from \<open>N2\<close> and from 1 it raises \<open>ValueError\<close>.
\<close>

theorem effective_batch_size:
  assumes ok1: "shape_ok (shape mask_idx) = Inr True" and ok2: "shape_ok (shape img) = Inr True"
    and grad: "SplitMask_grad (mask_idx, img) (og_sum, og_pow, og_count) = Inr (z, self, node)"
    and B: "B = min (shape mask_idx ! 0) (shape img ! 0)" and s: "s = shape mask_idx ! 3"
    and shp': "shape mask_idx' = shape mask_idx" "shape img' = shape img"
    and rows: "\<forall>p. in_bounds [B, 1, s, s] p
                 \<longrightarrow> elem mask_idx' p = elem mask_idx p \<and> elem img' p = elem img p"
  shows
    "(\<exists>S. SplitMask_thunk k m sd [mask_idx, img]
            = Inr ((slice0 0 m S, slice0 m (2 * m) S, slice0 (2 * m) (3 * m) S), S)
          \<and> shape S = [3 * m, B, 1, s, s]
          \<and> elem S = k mask_idx img B s (zeros [3 * m, B, 1, s, s])
                        ((B, (s + 31) div 32, (s + 31) div 32), (1, min 32 s, min 32 s))
          \<and> shape (slice0 0 m S) = [m, B, 1, s, s]
          \<and> shape (slice0 m (2 * m) S) = [m, B, 1, s, s]
          \<and> shape (slice0 (2 * m) (3 * m) S) = [m, B, 1, s, s])
     \<and> SplitMask_thunk (image_mask_split MASK) m sd [mask_idx', img']
         = SplitMask_thunk (image_mask_split MASK) m sd [mask_idx, img]
     \<and> (0 < s \<longrightarrow>
          (\<exists>g. SplitMaskGrad_thunk gf self node g0 = Inr g
              \<and> shape g = [B, 1, s, s]
              \<and> elem g = gf (function_name self) mask_idx img (drop 2 node) B s
                            (zeros [B, 1, s, s])
                            ((B, (s + min 32 s - 1) div min 32 s, (s + min 32 s - 1) div min 32 s),
                             (1, min 32 s, min 32 s))))
     \<and> (s = 0 \<longrightarrow> SplitMaskGrad_thunk gf self node g0 = Inl ZeroDivisionError)
     \<and> SplitMaskGrad_thunk (get_function MASK) self (mask_idx' # img' # drop 2 node) g0
         = SplitMaskGrad_thunk (get_function MASK) self node g0
     \<and> (\<forall>splitted pow_vol count.
          theano_split_mask MASK mask_idx img = Inr (splitted, pow_vol, count)
          \<longrightarrow> shape splitted = length MASK # shape img
              \<and> shape pow_vol = length MASK # shape img
              \<and> shape count = [length MASK, shape img ! 0, 1, 1, 1])
     \<and> (length (shape mask_idx) = 4 \<and> MASK \<noteq> []
          \<and> shape mask_idx ! 0 \<noteq> shape img ! 0 \<and> shape mask_idx ! 0 \<noteq> 1
          \<longrightarrow> theano_split_mask MASK mask_idx img = Inl ValueError)"
proof (intro conjI)
  let ?L = "((B, (s + 31) div 32, (s + 31) div 32), (1, min 32 s, min 32 s))"
  let ?S = "\<lparr>shape = [3 * m, B, 1, s, s],
             elem = k mask_idx img B s (zeros [3 * m, B, 1, s, s]) ?L\<rparr>"
  have sh: "shape ?S = (3 * m) # [B, 1, s, s]" by simp
  have "SplitMask_thunk k m sd [mask_idx, img]
            = Inr ((slice0 0 m ?S, slice0 m (2 * m) ?S, slice0 (2 * m) (3 * m) ?S), ?S)"
    by (simp add: SplitMask_thunk_ok[OF ok1 ok2] Let_def pycuda_zeros_eq zeros_def B s)
  moreover have "shape (slice0 0 m ?S) = [m, B, 1, s, s]"
    "shape (slice0 m (2 * m) ?S) = [m, B, 1, s, s]"
    "shape (slice0 (2 * m) (3 * m) ?S) = [m, B, 1, s, s]"
    unfolding slice0_shape[OF sh] by simp_all
  ultimately show "\<exists>S. SplitMask_thunk k m sd [mask_idx, img]
            = Inr ((slice0 0 m S, slice0 m (2 * m) S, slice0 (2 * m) (3 * m) S), S)
          \<and> shape S = [3 * m, B, 1, s, s]
          \<and> elem S = k mask_idx img B s (zeros [3 * m, B, 1, s, s])
                        ((B, (s + 31) div 32, (s + 31) div 32), (1, min 32 s, min 32 s))
          \<and> shape (slice0 0 m S) = [m, B, 1, s, s]
          \<and> shape (slice0 m (2 * m) S) = [m, B, 1, s, s]
          \<and> shape (slice0 (2 * m) (3 * m) S) = [m, B, 1, s, s]"
    by (intro exI[of _ ?S]) simp
next
  have ok1': "shape_ok (shape mask_idx') = Inr True" and ok2': "shape_ok (shape img') = Inr True"
    using ok1 ok2 shp' by simp_all
  show "SplitMask_thunk (image_mask_split MASK) m sd [mask_idx', img']
         = SplitMask_thunk (image_mask_split MASK) m sd [mask_idx, img]"
    using image_mask_split_rows[OF rows, of MASK]
    by (simp add: SplitMask_thunk_ok[OF ok1 ok2] SplitMask_thunk_ok[OF ok1' ok2'] shp' Let_def
        B s)
next
  note N = SplitMask_grad_node[OF grad]
  have mode: "(''sum'' \<in> set (connected self) \<and> ''pow'' \<in> set (connected self)
                 \<and> length (drop 2 node) = 2)
         \<or> (''sum'' \<in> set (connected self) \<and> ''pow'' \<notin> set (connected self)
                 \<and> length (drop 2 node) = 1)
         \<or> (''sum'' \<notin> set (connected self) \<and> ''pow'' \<in> set (connected self)
                 \<and> length (drop 2 node) = 1)"
    using N(2) by auto
  have T: "SplitMaskGrad_thunk gf self node g0 =
     (if s = 0 then Inl ZeroDivisionError
      else Inr \<lparr>shape = [B, 1, s, s],
                 elem = gf (function_name self) mask_idx img (drop 2 node) B s (zeros [B, 1, s, s])
                          ((B, (s + min 32 s - 1) div min 32 s, (s + min 32 s - 1) div min 32 s),
                           (1, min 32 s, min 32 s))\<rparr>)" for gf
    using SplitMaskGrad_thunk_ok[OF ok1 ok2 mode, of gf g0] N(1)
    by (simp add: Let_def B s)
  show "0 < s \<longrightarrow>
          (\<exists>g. SplitMaskGrad_thunk gf self node g0 = Inr g
              \<and> shape g = [B, 1, s, s]
              \<and> elem g = gf (function_name self) mask_idx img (drop 2 node) B s
                            (zeros [B, 1, s, s])
                            ((B, (s + min 32 s - 1) div min 32 s, (s + min 32 s - 1) div min 32 s),
                             (1, min 32 s, min 32 s)))"
    by (simp add: T)
  show "s = 0 \<longrightarrow> SplitMaskGrad_thunk gf self node g0 = Inl ZeroDivisionError"
    by (simp add: T)
  have ok1': "shape_ok (shape mask_idx') = Inr True" and ok2': "shape_ok (shape img') = Inr True"
    using ok1 ok2 shp' by simp_all
  have T': "SplitMaskGrad_thunk gf self (mask_idx' # img' # drop 2 node) g0 =
     (if s = 0 then Inl ZeroDivisionError
      else Inr \<lparr>shape = [B, 1, s, s],
                 elem = gf (function_name self) mask_idx' img' (drop 2 node) B s (zeros [B, 1, s, s])
                          ((B, (s + min 32 s - 1) div min 32 s, (s + min 32 s - 1) div min 32 s),
                           (1, min 32 s, min 32 s))\<rparr>)" for gf
    using SplitMaskGrad_thunk_ok[OF ok1' ok2' mode, of gf g0]
    by (simp add: Let_def B s shp')
  show "SplitMaskGrad_thunk (get_function MASK) self (mask_idx' # img' # drop 2 node) g0
         = SplitMaskGrad_thunk (get_function MASK) self node g0"
    unfolding T T' get_function_rows[OF rows] by (rule refl)
next
  show "\<forall>splitted pow_vol count.
          theano_split_mask MASK mask_idx img = Inr (splitted, pow_vol, count)
          \<longrightarrow> shape splitted = length MASK # shape img
              \<and> shape pow_vol = length MASK # shape img
              \<and> shape count = [length MASK, shape img ! 0, 1, 1, 1]"
    using theano_split_mask_result(3,4,6) by (metis T_sqr_simps(1))
next
  from ok2 have ne: "shape img \<noteq> []" using shape_ok_TrueD by blast
  show "length (shape mask_idx) = 4 \<and> MASK \<noteq> []
          \<and> shape mask_idx ! 0 \<noteq> shape img ! 0 \<and> shape mask_idx ! 0 \<noteq> 1
          \<longrightarrow> theano_split_mask MASK mask_idx img = Inl ValueError"
    using theano_split_mask_batch_mismatch[OF _ ne] by blast
qed

theorem effective_batch_size_witness:
  "(\<exists>o1 o2 o3 sd'.
      SplitMask_thunk (image_mask_split MASK_AB) 2 None [zeros [3, 1, 4, 4], zeros [2, 1, 4, 4]]
        = Inr ((o1, o2, o3), sd')
      \<and> shape o1 = [2, 2, 1, 4, 4] \<and> shape o2 = [2, 2, 1, 4, 4] \<and> shape o3 = [2, 2, 1, 4, 4])
   \<and> SplitMask_thunk (image_mask_split MASK_AB) 2 None
        [(zeros [3, 1, 4, 4])\<lparr>elem := (\<lambda>p. if hd p = 2 then 1 else 0)\<rparr>, zeros [2, 1, 4, 4]]
       = SplitMask_thunk (image_mask_split MASK_AB) 2 None [zeros [3, 1, 4, 4], zeros [2, 1, 4, 4]]
   \<and> (\<exists>g. SplitMaskGrad_thunk (get_function MASK_AB)
              \<lparr>connected = [''sum''], function_name = ''image_mask_split_grad_sum''\<rparr>
              [zeros [3, 1, 4, 4], zeros [2, 1, 4, 4], zeros [2, 2]] None = Inr g
          \<and> shape g = [2, 1, 4, 4])
   \<and> SplitMaskGrad_thunk (get_function MASK_AB)
        \<lparr>connected = [''sum''], function_name = ''image_mask_split_grad_sum''\<rparr>
        [(zeros [3, 1, 4, 4])\<lparr>elem := (\<lambda>p. if hd p = 2 then 1 else 0)\<rparr>, zeros [2, 1, 4, 4],
         zeros [2, 2]] None
       = SplitMaskGrad_thunk (get_function MASK_AB)
           \<lparr>connected = [''sum''], function_name = ''image_mask_split_grad_sum''\<rparr>
           [zeros [3, 1, 4, 4], zeros [2, 1, 4, 4], zeros [2, 2]] None
   \<and> theano_split_mask MASK_AB (zeros [3, 1, 4, 4]) (zeros [2, 1, 4, 4]) = Inl ValueError"
proof -
  let ?m = "zeros [3, 1, 4, 4]" and ?i = "zeros [2, 1, 4, 4]"
  let ?m' = "(zeros [3, 1, 4, 4])\<lparr>elem := (\<lambda>p. if hd p = 2 then 1 else 0)\<rparr>"
  have a: "shape_ok (shape ?m) = Inr True" and b: "shape_ok (shape ?i) = Inr True"
    by (simp_all add: shape_ok_def zeros_def)
  have c: "SplitMask_grad (?m, ?i) (Connected (zeros [2, 2]), DisconnectedType, DisconnectedType)
           = Inr (zeros_like ?m,
                  \<lparr>connected = [''sum''], function_name = ''image_mask_split_grad_sum''\<rparr>,
                  [?m, ?i, zeros [2, 2]])"
    by (simp add: SplitMask_grad_def SplitMaskGrad_init_def SplitMaskGrad_make_node_def Let_def)
  have d: "(2::nat) = min (shape ?m ! 0) (shape ?i ! 0)" "(4::nat) = shape ?m ! 3"
    "shape ?m' = shape ?m" "shape ?i = shape ?i"
    by (simp_all add: zeros_def)
  have e: "\<forall>p. in_bounds [2, 1, 4, 4] p
             \<longrightarrow> elem ?m' p = elem ?m p \<and> elem ?i p = elem ?i p"
    by (auto simp: in_bounds_Cons zeros_def)
  note T = effective_batch_size [OF a b c d e, of "image_mask_split MASK_AB" 2 None
        MASK_AB "get_function MASK_AB" None]
  show ?thesis
    using T by (auto simp: zeros_def MASK_AB_def)
qed

text \<open>
  The claim as first stated fails for the reference implementation: with one label map and
  three images it returns volumes of batch size three, where \<open>min(N1, N2)\<close> is one.
\<close>

theorem reference_keeps_image_batch_size:
  "\<exists>splitted pow_vol count.
      theano_split_mask MASK_AB (zeros [1, 1, 4, 4]) (zeros [3, 1, 4, 4])
        = Inr (splitted, pow_vol, count)
      \<and> shape splitted = [2, 3, 1, 4, 4] \<and> shape pow_vol = [2, 3, 1, 4, 4]
      \<and> shape count = [2, 3, 1, 1, 1]
      \<and> min (shape (zeros [1, 1, 4, 4]) ! 0) (shape (zeros [3, 1, 4, 4]) ! 0) = 1"
proof -
  obtain splitted pow_vol count where
    r: "theano_split_mask MASK_AB (zeros [1, 1, 4, 4]) (zeros [3, 1, 4, 4])
          = Inr (splitted, pow_vol, count)"
    using theano_split_mask_returns[of "zeros [1, 1, 4, 4]" "zeros [3, 1, 4, 4]" MASK_AB]
    by (auto simp: MASK_AB_def)
  note R = theano_split_mask_result(3,4,6)[OF r]
  from R have "shape splitted = [2, 3, 1, 4, 4]" "shape pow_vol = [2, 3, 1, 4, 4]"
    "shape count = [2, 3, 1, 1, 1]"
    by (simp_all add: MASK_AB_facts(3))
  with r show ?thesis by simp
qed

subsection \<open>The two volumes of the reference implementation\<close>

text \<open>
  C10. Whenever \<open>theano_split_mask\<close> returns, its second volume has the shape of the first and
  is its element-wise square; in the slot of class \<open>c\<close> a position that holds the code of \<open>c\<close>
  in the label map carries the image value (its square in the second volume), and every
  other position is exactly zero in both volumes. The function returns for every label map
  of four axes with an image of the same shape and a non-empty enumeration.
\<close>

theorem theano_split_mask_squares_and_zeros:
  "(length (shape mask_idx) = 4 \<and> shape img = shape mask_idx \<and> MASK \<noteq> [] \<longrightarrow>
      (\<exists>r. theano_split_mask MASK mask_idx img = Inr r))
   \<and> (\<forall>splitted pow_vol count.
        theano_split_mask MASK mask_idx img = Inr (splitted, pow_vol, count) \<longrightarrow>
          shape pow_vol = shape splitted
          \<and> (\<forall>p. elem pow_vol p = (elem splitted p)\<^sup>2)
          \<and> (\<forall>c q. c < length MASK \<longrightarrow>
                (if in_bounds (shape mask_idx) (take 4 q)
                    \<and> elem mask_idx (take 4 q) = real_of_int (snd (MASK ! c))
                 then elem splitted (c # q) = elem img q \<and> elem pow_vol (c # q) = (elem img q)\<^sup>2
                 else elem splitted (c # q) = 0 \<and> elem pow_vol (c # q) = 0)))"
proof (intro conjI impI allI)
  assume "length (shape mask_idx) = 4 \<and> shape img = shape mask_idx \<and> MASK \<noteq> []"
  then show "\<exists>r. theano_split_mask MASK mask_idx img = Inr r"
    using theano_split_mask_total[of mask_idx img MASK] by blast
next
  fix splitted pow_vol count
  assume r: "theano_split_mask MASK mask_idx img = Inr (splitted, pow_vol, count)"
  show "shape pow_vol = shape splitted"
    by (simp add: theano_split_mask_result(4)[OF r])
next
  fix splitted pow_vol count p
  assume r: "theano_split_mask MASK mask_idx img = Inr (splitted, pow_vol, count)"
  show "elem pow_vol p = (elem splitted p)\<^sup>2"
    by (simp add: theano_split_mask_result(4)[OF r])
next
  fix splitted pow_vol count c q
  assume r: "theano_split_mask MASK mask_idx img = Inr (splitted, pow_vol, count)"
    and c: "c < length MASK"
  show "if in_bounds (shape mask_idx) (take 4 q)
           \<and> elem mask_idx (take 4 q) = real_of_int (snd (MASK ! c))
        then elem splitted (c # q) = elem img q \<and> elem pow_vol (c # q) = (elem img q)\<^sup>2
        else elem splitted (c # q) = 0 \<and> elem pow_vol (c # q) = 0"
    by (simp add: theano_split_mask_result(4)[OF r] theano_split_mask_result(5)[OF r c])
qed

theorem theano_split_mask_squares_and_zeros_witness:
  "\<exists>splitted pow_vol count.
      theano_split_mask MASK_AB labels_4x4 image_4x4 = Inr (splitted, pow_vol, count)
      \<and> elem splitted [0, 0, 0, 1, 1] = 1 \<and> elem pow_vol [0, 0, 0, 1, 1] = 1
      \<and> elem splitted [0, 0, 0, 2, 2] = 0 \<and> elem pow_vol [0, 0, 0, 2, 2] = 0
      \<and> elem splitted [1, 0, 0, 2, 2] = 3 \<and> elem pow_vol [1, 0, 0, 2, 2] = 9"
proof -
  note T = theano_split_mask_squares_and_zeros[of labels_4x4 image_4x4 MASK_AB]
  from T obtain r where "theano_split_mask MASK_AB labels_4x4 image_4x4 = Inr r"
    by (auto simp: MASK_AB_def)
  then obtain splitted pow_vol count where
    r: "theano_split_mask MASK_AB labels_4x4 image_4x4 = Inr (splitted, pow_vol, count)"
    by (cases r) auto
  from T r have E: "\<And>c q. c < length MASK_AB \<Longrightarrow>
                (if in_bounds (shape labels_4x4) (take 4 q)
                    \<and> elem labels_4x4 (take 4 q) = real_of_int (snd (MASK_AB ! c))
                 then elem splitted (c # q) = elem image_4x4 q \<and> elem pow_vol (c # q) = (elem image_4x4 q)\<^sup>2
                 else elem splitted (c # q) = 0 \<and> elem pow_vol (c # q) = 0)"
    by blast
  have "elem splitted [0, 0, 0, 1, 1] = 1 \<and> elem pow_vol [0, 0, 0, 1, 1] = 1"
    using E[of 0 "[0, 0, 1, 1]"]
    by (simp add: MASK_AB_def labels_4x4_def image_4x4_def array4_def split: if_splits)
  moreover have "elem splitted [0, 0, 0, 2, 2] = 0 \<and> elem pow_vol [0, 0, 0, 2, 2] = 0"
    using E[of 0 "[0, 0, 2, 2]"]
    by (simp add: MASK_AB_def labels_4x4_def image_4x4_def array4_def split: if_splits)
  moreover have "elem splitted [1, 0, 0, 2, 2] = 3 \<and> elem pow_vol [1, 0, 0, 2, 2] = 9"
    using E[of 1 "[0, 0, 2, 2]"]
    by (simp add: MASK_AB_def labels_4x4_def image_4x4_def array4_def split: if_splits)
  ultimately show ?thesis using r by blast
qed

subsection \<open>Counts of the reference implementation\<close>

text \<open>
  C3 (as amended). Let the label map and the image have four axes and the same extents on
  axes 1 to 3, let the enumeration be non-empty with pairwise different codes, and let every
  label value be a code of the enumeration; \<open>N1\<close> and \<open>N2\<close> are the batch sizes of the label
  map and of the image. Then \<open>theano_split_mask\<close> returns when \<open>N1 = N2\<close>, and also when
  \<open>N1 = 1\<close> and \<open>N2 > 0\<close> (the one row of counts is repeated for every image); it raises
  \<open>ValueError\<close> when \<open>N1\<close> differs from \<open>N2\<close> and from 1. Whenever it returns, for every image \<open>b\<close>
  of the batch the counts \<open>count[c, b]\<close>, summed over all classes \<open>c\<close>, give the number of pixels
  of image \<open>b\<close> (channels times rows times columns): every pixel is counted in exactly one
  class.
\<close>

theorem count_sums_to_pixels:
  assumes "length (shape mask_idx) = 4" and "length (shape img) = 4"
    and "tl (shape img) = tl (shape mask_idx)"
    and "MASK \<noteq> []" and "distinct (map snd MASK)"
    and "\<forall>q. in_bounds (shape mask_idx) q \<longrightarrow> elem mask_idx q \<in> real_of_int ` snd ` set MASK"
  shows "(shape mask_idx ! 0 = shape img ! 0 \<or> (shape mask_idx ! 0 = 1 \<and> 0 < shape img ! 0)
            \<longrightarrow> (\<exists>r. theano_split_mask MASK mask_idx img = Inr r))
       \<and> (shape mask_idx ! 0 \<noteq> shape img ! 0 \<and> shape mask_idx ! 0 \<noteq> 1
            \<longrightarrow> theano_split_mask MASK mask_idx img = Inl ValueError)
       \<and> (\<forall>splitted pow_vol count b.
            theano_split_mask MASK mask_idx img = Inr (splitted, pow_vol, count)
              \<and> b < shape img ! 0
            \<longrightarrow> shape count = [length MASK, shape img ! 0, 1, 1, 1]
                \<and> sum_list (map (\<lambda>c. elem count [c, b, 0, 0, 0]) [0..<length MASK])
                    = real (shape img ! 1 * shape img ! 2 * shape img ! 3))"
proof (intro conjI impI allI)
  assume "shape mask_idx ! 0 = shape img ! 0 \<or> (shape mask_idx ! 0 = 1 \<and> 0 < shape img ! 0)"
  then show "\<exists>r. theano_split_mask MASK mask_idx img = Inr r"
    by (rule theano_split_mask_returns[OF assms(1,2,3,4)])
next
  from assms(2) have ne: "shape img \<noteq> []" by auto
  assume "shape mask_idx ! 0 \<noteq> shape img ! 0 \<and> shape mask_idx ! 0 \<noteq> 1"
  then show "theano_split_mask MASK mask_idx img = Inl ValueError"
    using theano_split_mask_batch_mismatch[OF assms(1) ne assms(4)] by blast
next
  fix splitted pow_vol count b
  assume "theano_split_mask MASK mask_idx img = Inr (splitted, pow_vol, count)
              \<and> b < shape img ! 0"
  then have r: "theano_split_mask MASK mask_idx img = Inr (splitted, pow_vol, count)"
    and b: "b < shape img ! 0" by simp_all
  show "shape count = [length MASK, shape img ! 0, 1, 1, 1]"
    by (rule theano_split_mask_result(6)[OF r])
  from assms(2) have ne: "shape img \<noteq> []" by auto
  obtain n c h w where shp: "shape mask_idx = [n, c, h, w]"
    using assms(1) by (auto simp: length_Suc_conv numeral_eq_Suc)
  obtain n2 where im: "shape img = [n2, c, h, w]"
    using assms(2,3) shp by (cases "shape img") auto
  define b' where "b' = (if n = 1 then 0 else b)"
  have "n = n2 \<or> n = 1"
    using theano_split_mask_batch_mismatch[OF assms(1) ne assms(4)] r by (auto simp: shp im)
  then have b'n: "b' < n" using b by (auto simp: b'_def im)
  let ?I = "indices [c, h, w]"
  have cnt: "elem count [k, b, 0, 0, 0] =
        sum_list (map (\<lambda>q. if elem mask_idx (b' # q) = real_of_int (snd (MASK ! k)) then 1 else 0) ?I)"
    if "k < length MASK" for k
    using theano_split_mask_result(7)[OF r that, of "[0, 0, 0]" b]
    by (simp add: shp b'_def)
  have "sum_list (map (\<lambda>k. elem count [k, b, 0, 0, 0]) [0..<length MASK])
      = sum_list (map (\<lambda>k. sum_list (map (\<lambda>q. if elem mask_idx (b' # q) = real_of_int (snd (MASK ! k))
                                                 then 1 else 0) ?I)) [0..<length MASK])"
    by (rule sum_list_map_cong) (simp add: cnt)
  also have "\<dots> = sum_list (map (\<lambda>q. sum_list (map (\<lambda>k. if elem mask_idx (b' # q) = real_of_int (snd (MASK ! k))
                                                 then 1 else 0) [0..<length MASK])) ?I)"
    by (rule sum_list_swap)
  also have "\<dots> = sum_list (map (\<lambda>q. 1) ?I)"
  proof (rule sum_list_map_cong)
    fix q assume "q \<in> set ?I"
    then have "in_bounds [c, h, w] q" by (simp only: in_set_indices)
    then have "in_bounds (shape mask_idx) (b' # q)" using b'n by (simp add: shp)
    with assms(6) have "elem mask_idx (b' # q) \<in> real_of_int ` snd ` set MASK" by blast
    then show "sum_list (map (\<lambda>k. if elem mask_idx (b' # q) = real_of_int (snd (MASK ! k))
                                                 then 1 else 0) [0..<length MASK]) = (1::real)"
      by (simp add: sum_list_class_indicator[OF assms(5)])
  qed
  also have "\<dots> = real (length ?I)"
    by (simp add: sum_list_triv)
  also have "\<dots> = real (shape img ! 1 * shape img ! 2 * shape img ! 3)"
    unfolding length_indices by (simp add: im)
  finally show "sum_list (map (\<lambda>c. elem count [c, b, 0, 0, 0]) [0..<length MASK])
                    = real (shape img ! 1 * shape img ! 2 * shape img ! 3)" .
qed

theorem count_sums_to_pixels_witness:
  "\<exists>splitted pow_vol count.
      theano_split_mask MASK_AB (zeros [1, 1, 2, 2]) (zeros [2, 1, 2, 2])
        = Inr (splitted, pow_vol, count)
      \<and> shape count = [2, 2, 1, 1, 1]
      \<and> elem count [0, 1, 0, 0, 0] + elem count [1, 1, 0, 0, 0] = 4"
proof -
  have e: "\<forall>q. in_bounds (shape (zeros [1, 1, 2, 2])) q
             \<longrightarrow> elem (zeros [1, 1, 2, 2]) q \<in> real_of_int ` snd ` set MASK_AB"
    by (simp add: MASK_AB_def)
  have s: "length (shape (zeros [1, 1, 2, 2])) = 4" "length (shape (zeros [2, 1, 2, 2])) = 4"
    "tl (shape (zeros [2, 1, 2, 2])) = tl (shape (zeros [1, 1, 2, 2]))"
    by simp_all
  have u: "[0..<2::nat] = [0, Suc 0]"
    by (simp add: numeral_2_eq_2)
  note T = count_sums_to_pixels[OF s MASK_AB_facts(1,2) e]
  from T obtain splitted pow_vol count where
    r: "theano_split_mask MASK_AB (zeros [1, 1, 2, 2]) (zeros [2, 1, 2, 2])
          = Inr (splitted, pow_vol, count)"
    by (auto simp: zeros_def)
  from T[THEN conjunct2, THEN conjunct2, rule_format, of splitted pow_vol count 1] r
  have "shape count = [2, 2, 1, 1, 1]
      \<and> elem count [0, 1, 0, 0, 0] + elem count [1, 1, 0, 0, 0] = 4"
    by (simp add: MASK_AB_facts(3) u)
  with r show ?thesis by blast
qed

text \<open>
  The claim as first stated fails: a label map of two images with an image batch of one is
  a pair that passes the shape check, with every label in the enumeration, and the reference
  implementation raises instead of returning counts.
\<close>

theorem reference_raises_on_larger_label_batch:
  "shape_ok (shape (zeros [2, 1, 2, 2])) = Inr True
   \<and> shape_ok (shape (zeros [1, 1, 2, 2])) = Inr True
   \<and> theano_split_mask MASK_AB (zeros [2, 1, 2, 2]) (zeros [1, 1, 2, 2]) = Inl ValueError"
  using theano_split_mask_batch_mismatch[of "zeros [2, 1, 2, 2]" "zeros [1, 1, 2, 2]" MASK_AB]
  by (simp add: shape_ok_def MASK_AB_def)

subsection \<open>The two-class scenario\<close>

text \<open>
  C9. For the 4x4 label map with class \<open>A\<close> (code 0) in the top-left 2x2 block and class \<open>B\<close>
  (code 1) elsewhere, and the image that is 1 on \<open>A\<close> and 3 on \<open>B\<close>, the reference reduction
  followed by the post-processor gives count 4, sum 4, sum of squares 4, mean 1 and
  variance 0 for \<open>A\<close>, and count 12, sum 36, sum of squares 108, mean 3 and variance 0
  for \<open>B\<close>.
\<close>

theorem two_class_scenario:
  "\<exists>splitted pow_vol count mean var count_sum sum_tot pow_tot.
      theano_split_mask MASK_AB labels_4x4 image_4x4 = Inr (splitted, pow_vol, count)
      \<and> split_to_mean_var splitted pow_vol count = Inr (mean, var, count_sum)
      \<and> sum_axes3 2 splitted = Inr sum_tot \<and> sum_axes3 2 pow_vol = Inr pow_tot
      \<and> elem count_sum [0, 0] = 4 \<and> elem sum_tot [0, 0] = 4 \<and> elem pow_tot [0, 0] = 4
      \<and> elem count_sum [1, 0] = 12 \<and> elem sum_tot [1, 0] = 36 \<and> elem pow_tot [1, 0] = 108
      \<and> elem mean [0, 0] = 1 \<and> elem var [0, 0] = 0
      \<and> elem mean [1, 0] = 3 \<and> elem var [1, 0] = 0"
proof -
  obtain splitted pow_vol count mean var count_sum sum_tot pow_tot where
    r: "theano_split_mask MASK_AB labels_4x4 image_4x4 = Inr (splitted, pow_vol, count)"
    and s: "split_to_mean_var splitted pow_vol count = Inr (mean, var, count_sum)"
    and t: "sum_axes3 2 splitted = Inr sum_tot" and u: "sum_axes3 2 pow_vol = Inr pow_tot"
    using reference_pipeline_total[of labels_4x4 image_4x4 MASK_AB] MASK_AB_facts(1)
    by auto
  have same: "shape image_4x4 = shape labels_4x4" by simp
  have k0: "0 < length MASK_AB" and k1: "1 < length MASK_AB"
    by (simp_all add: MASK_AB_facts(3))
  have b: "0 < shape labels_4x4 ! 0" by simp
  have v0: "real_of_int (snd (MASK_AB ! 0)) = 0" and v1: "real_of_int (snd (MASK_AB ! 1)) = 1"
    by (simp_all add: MASK_AB_def)
  note A = reference_pipeline_values[OF r s same k0 b, unfolded v0 scenario_class_pixels]
  note B = reference_pipeline_values[OF r s same k1 b, unfolded v1 scenario_class_pixels]
  have a1: "elem count_sum [0, 0] = 4" using A(1) by simp
  have a2: "elem sum_tot [0, 0] = 4" using A(4)[OF t] by (simp add: image_4x4_def array4_def)
  have a3: "elem pow_tot [0, 0] = 4" using A(5)[OF u] by (simp add: image_4x4_def array4_def)
  have a4: "elem mean [0, 0] = 1" using A(2) by (simp add: image_4x4_def array4_def)
  have a5: "elem var [0, 0] = 0" using A(3) a4 by (simp add: image_4x4_def array4_def)
  have b1: "elem count_sum [1, 0] = 12" using B(1) by simp
  have b2: "elem sum_tot [1, 0] = 36" using B(4)[OF t] by (simp add: image_4x4_def array4_def)
  have b3: "elem pow_tot [1, 0] = 108" using B(5)[OF u] by (simp add: image_4x4_def array4_def)
  have b4: "elem mean [1, 0] = 3" using B(2) by (simp add: image_4x4_def array4_def)
  have b5: "elem var [1, 0] = 0" using B(3) b4 by (simp add: image_4x4_def array4_def)
  from r s t u a1 a2 a3 a4 a5 b1 b2 b3 b4 b5 show ?thesis by blast
qed

subsection \<open>The accelerated operator against the reference implementation\<close>

text \<open>
  C1 (as amended). Let the label map have four axes and pass the shape check, let the image
  have the same shape (so the two batch sizes are equal), and let the codes of the
  enumeration be pairwise different. Then the reference implementation and the accelerated
  operator (with the device function modelled from the spec) both return, and for every
  class \<open>k\<close> and image \<open>b\<close> the spatial totals of their three volumes agree: the same sum, the
  same sum of squares and the same count. The reduced arrays also have the same shapes.
  Values are real numbers here, so the totals are equal, not only close.
\<close>

theorem engine_matches_reference:
  assumes "shape_ok (shape mask_idx) = Inr True" and "length (shape mask_idx) = 4"
    and "shape img = shape mask_idx" and "distinct (map snd MASK)"
    and "k < length MASK" and "b < shape mask_idx ! 0"
  shows "\<exists>splitted pow_vol count o_sum o_pow o_count sd' r_sum r_pow r_count e_sum e_pow e_count.
      theano_split_mask MASK mask_idx img = Inr (splitted, pow_vol, count)
      \<and> cuda_split_mask (image_mask_split MASK) (length MASK) sd
           (Float32, mask_idx) (Float32, img) = Inr ((o_sum, o_pow, o_count), sd')
      \<and> sum_axes3 2 splitted = Inr r_sum \<and> sum_axes3 2 pow_vol = Inr r_pow
      \<and> sum_axes3 2 count = Inr r_count
      \<and> sum_axes3 2 o_sum = Inr e_sum \<and> sum_axes3 2 o_pow = Inr e_pow
      \<and> sum_axes3 2 o_count = Inr e_count
      \<and> shape e_sum = shape r_sum \<and> shape e_pow = shape r_pow \<and> shape e_count = shape r_count
      \<and> elem e_sum [k, b] = elem r_sum [k, b]
      \<and> elem e_pow [k, b] = elem r_pow [k, b]
      \<and> elem e_count [k, b] = elem r_count [k, b]"
proof -
  from assms(5) have ne: "MASK \<noteq> []" by auto
  have ok2: "shape_ok (shape img) = Inr True" using assms(1,3) by simp
  obtain splitted pow_vol count where
    r: "theano_split_mask MASK mask_idx img = Inr (splitted, pow_vol, count)"
    using theano_split_mask_total[OF assms(2,3) ne] by (metis prod_cases3)
  note R = theano_split_mask_result[OF r]
  note T = theano_split_mask_stats[OF r assms(3,5,6)]
  obtain o_sum o_pow o_count sd' where
    thunk: "SplitMask_thunk (image_mask_split MASK) (length MASK) sd [mask_idx, img]
              = Inr ((o_sum, o_pow, o_count), sd')"
    by (simp add: SplitMask_thunk_ok[OF assms(1) ok2] Let_def)
  then have c: "cuda_split_mask (image_mask_split MASK) (length MASK) sd
           (Float32, mask_idx) (Float32, img) = Inr ((o_sum, o_pow, o_count), sd')"
    by (simp add: cuda_split_mask_def SplitMask_make_node_def contiguouse_def py_assert_def)
  have b': "b < min (shape mask_idx ! 0) (shape img ! 0)" using assms(3,6) by simp
  note E = SplitMask_thunk_spec_kernel(4,5,6)[OF assms(1) ok2 thunk assms(5) b']
  note U = SplitMask_thunk_stats[OF assms(1,2,3,4) thunk assms(5,6)]
  have rshape: "shape splitted = length MASK # shape mask_idx"
    "shape pow_vol = length MASK # shape mask_idx"
    "shape count = [length MASK, shape mask_idx ! 0, 1, 1, 1]"
    by (simp_all add: R(3,4,6) assms(3))
  have len: "length (shape splitted) = 5" "length (shape pow_vol) = 5"
    by (simp_all add: rshape assms(2))
  have tk: "take 2 (shape splitted) = [length MASK, shape mask_idx ! 0]"
    "take 2 (shape pow_vol) = [length MASK, shape mask_idx ! 0]"
    using valid_shape[OF assms(1,2)] rshape
    by (metis One_nat_def Suc_1 take_Suc_Cons take_0)+
  define r_sum where "r_sum = \<lparr>shape = take 2 (shape splitted) @ drop 5 (shape splitted),
      elem = (\<lambda>p. sum_list (map (\<lambda>q. elem splitted (take 2 p @ q @ drop 2 p))
                               (indices (take 3 (drop 2 (shape splitted))))))\<rparr>"
  define r_pow where "r_pow = \<lparr>shape = take 2 (shape pow_vol) @ drop 5 (shape pow_vol),
      elem = (\<lambda>p. sum_list (map (\<lambda>q. elem pow_vol (take 2 p @ q @ drop 2 p))
                               (indices (take 3 (drop 2 (shape pow_vol))))))\<rparr>"
  define r_count where "r_count = \<lparr>shape = take 2 (shape count) @ drop 5 (shape count),
      elem = (\<lambda>p. sum_list (map (\<lambda>q. elem count (take 2 p @ q @ drop 2 p))
                               (indices (take 3 (drop 2 (shape count))))))\<rparr>"
  define e_sum where "e_sum = \<lparr>shape = take 2 (shape o_sum) @ drop 5 (shape o_sum),
      elem = (\<lambda>p. sum_list (map (\<lambda>q. elem o_sum (take 2 p @ q @ drop 2 p))
                               (indices (take 3 (drop 2 (shape o_sum))))))\<rparr>"
  define e_pow where "e_pow = \<lparr>shape = take 2 (shape o_pow) @ drop 5 (shape o_pow),
      elem = (\<lambda>p. sum_list (map (\<lambda>q. elem o_pow (take 2 p @ q @ drop 2 p))
                               (indices (take 3 (drop 2 (shape o_pow))))))\<rparr>"
  define e_count where "e_count = \<lparr>shape = take 2 (shape o_count) @ drop 5 (shape o_count),
      elem = (\<lambda>p. sum_list (map (\<lambda>q. elem o_count (take 2 p @ q @ drop 2 p))
                               (indices (take 3 (drop 2 (shape o_count))))))\<rparr>"
  have red: "sum_axes3 2 splitted = Inr r_sum" "sum_axes3 2 pow_vol = Inr r_pow"
    "sum_axes3 2 count = Inr r_count"
    "sum_axes3 2 o_sum = Inr e_sum" "sum_axes3 2 o_pow = Inr e_pow"
    "sum_axes3 2 o_count = Inr e_count"
    by (simp_all add: sum_axes3_Inr_iff r_sum_def r_pow_def r_count_def e_sum_def e_pow_def
        e_count_def len rshape(3) E)
  have shp: "shape e_sum = shape r_sum" "shape e_pow = shape r_pow" "shape e_count = shape r_count"
    by (simp_all add: r_sum_def r_pow_def r_count_def e_sum_def e_pow_def e_count_def E len tk
        rshape(3) assms(3))
  have v1: "elem e_sum [k, b] = elem r_sum [k, b]"
    using U(1) T(1) by (simp add: e_sum_def r_sum_def)
  have v2: "elem e_pow [k, b] = elem r_pow [k, b]"
    using U(2) T(2) by (simp add: e_pow_def r_pow_def)
  have v3: "elem e_count [k, b] = elem r_count [k, b]"
    using U(3) T(3) by (simp add: e_count_def r_count_def)
  from r c red shp v1 v2 v3 show ?thesis by blast
qed

theorem engine_matches_reference_witness:
  "\<exists>splitted pow_vol count o_sum o_pow o_count sd' r_sum r_pow r_count e_sum e_pow e_count.
      theano_split_mask MASK_AB labels_4x4 image_4x4 = Inr (splitted, pow_vol, count)
      \<and> cuda_split_mask (image_mask_split MASK_AB) (length MASK_AB) None
           (Float32, labels_4x4) (Float32, image_4x4) = Inr ((o_sum, o_pow, o_count), sd')
      \<and> sum_axes3 2 splitted = Inr r_sum \<and> sum_axes3 2 pow_vol = Inr r_pow
      \<and> sum_axes3 2 count = Inr r_count
      \<and> sum_axes3 2 o_sum = Inr e_sum \<and> sum_axes3 2 o_pow = Inr e_pow
      \<and> sum_axes3 2 o_count = Inr e_count
      \<and> shape e_sum = shape r_sum \<and> shape e_pow = shape r_pow \<and> shape e_count = shape r_count
      \<and> elem e_sum [1, 0] = elem r_sum [1, 0]
      \<and> elem e_pow [1, 0] = elem r_pow [1, 0]
      \<and> elem e_count [1, 0] = elem r_count [1, 0]"
proof -
  have a: "shape_ok (shape labels_4x4) = Inr True" "length (shape labels_4x4) = 4"
    "shape image_4x4 = shape labels_4x4" "1 < length MASK_AB" "0 < shape labels_4x4 ! 0"
    by (simp_all add: shape_ok_def MASK_AB_facts(3))
  show ?thesis
    by (rule engine_matches_reference[OF a(1,2,3) MASK_AB_facts(2) a(4,5)])
qed

text \<open>
  The claim as first stated fails when the batch sizes differ: for a label map of three
  images and an image batch of two, both passing the shape check, the accelerated operator
  returns volumes of batch size two and the reference implementation raises \<open>ValueError\<close>.
\<close>

theorem engine_returns_where_reference_raises:
  "shape_ok (shape (zeros [3, 1, 2, 2])) = Inr True
   \<and> shape_ok (shape (zeros [2, 1, 2, 2])) = Inr True
   \<and> theano_split_mask MASK_AB (zeros [3, 1, 2, 2]) (zeros [2, 1, 2, 2]) = Inl ValueError
   \<and> (\<exists>o_sum o_pow o_count sd'.
        cuda_split_mask (image_mask_split MASK_AB) (length MASK_AB) None
          (Float32, zeros [3, 1, 2, 2]) (Float32, zeros [2, 1, 2, 2])
          = Inr ((o_sum, o_pow, o_count), sd')
        \<and> shape o_sum = [2, 2, 1, 2, 2])"
proof -
  have a: "shape_ok (shape (zeros [3, 1, 2, 2])) = Inr True"
    and b: "shape_ok (shape (zeros [2, 1, 2, 2])) = Inr True"
    by (simp_all add: shape_ok_def)
  have c: "theano_split_mask MASK_AB (zeros [3, 1, 2, 2]) (zeros [2, 1, 2, 2]) = Inl ValueError"
    using theano_split_mask_batch_mismatch[of "zeros [3, 1, 2, 2]" "zeros [2, 1, 2, 2]" MASK_AB]
    by (simp add: MASK_AB_def)
  obtain o_sum o_pow o_count sd' where
    thunk: "SplitMask_thunk (image_mask_split MASK_AB) (length MASK_AB) None
              [zeros [3, 1, 2, 2], zeros [2, 1, 2, 2]] = Inr ((o_sum, o_pow, o_count), sd')"
    unfolding SplitMask_thunk_ok[OF a b] Let_def by blast
  have "shape o_sum = [2, 2, 1, 2, 2]"
    using SplitMask_thunk_spec_kernel(4)[OF a b thunk, of 0 0]
    by (simp add: MASK_AB_facts(3))
  moreover have "cuda_split_mask (image_mask_split MASK_AB) (length MASK_AB) None
          (Float32, zeros [3, 1, 2, 2]) (Float32, zeros [2, 1, 2, 2])
          = Inr ((o_sum, o_pow, o_count), sd')"
    using thunk
    by (simp add: cuda_split_mask_def SplitMask_make_node_def contiguouse_def py_assert_def)
  ultimately have d: "\<exists>o_sum o_pow o_count sd'.
        cuda_split_mask (image_mask_split MASK_AB) (length MASK_AB) None
          (Float32, zeros [3, 1, 2, 2]) (Float32, zeros [2, 1, 2, 2])
          = Inr ((o_sum, o_pow, o_count), sd')
        \<and> shape o_sum = [2, 2, 1, 2, 2]"
    by blast
  from a b c d show ?thesis by blast
qed

subsection \<open>The backward pass\<close>

text \<open>
  C2. Let the label map have four axes and pass the shape check, let the image have the
  same shape, and let at least one upstream gradient be connected. Then \<open>SplitMask.grad\<close>
  builds the gradient node and its thunk (with the device functions modelled from the spec)
  returns an array shaped like the image. At every pixel \<open>(b, 0, y, x)\<close> of class \<open>c\<close> its value
  is \<open>gradSum[c, b]\<close> when the sum is connected plus
  \<open>2 * image[b, 0, y, x] * gradSumOfSquares[c, b]\<close> when the sum of squares is connected, and it
  is zero at a pixel of no class. This value is the derivative, with respect to that pixel,
  of the forward sums and sums of squares weighted by their upstream gradients.
\<close>

theorem backward_is_analytic_gradient:
  assumes "shape_ok (shape mask_idx) = Inr True" and "length (shape mask_idx) = 4"
    and "shape img = shape mask_idx"
    and "og_sum \<noteq> DisconnectedType \<or> og_pow \<noteq> DisconnectedType"
    and "in_bounds (shape mask_idx) p"
  shows "\<exists>self node g.
      SplitMask_grad (mask_idx, img) (og_sum, og_pow, og_count)
        = Inr (zeros_like mask_idx, self, node)
      \<and> SplitMaskGrad_thunk (get_function MASK) self node g0 = Inr g
      \<and> shape g = shape img
      \<and> elem g p = (case classifier MASK (elem mask_idx p) of
                      None \<Rightarrow> 0
                    | Some c \<Rightarrow> og_weight og_sum c (hd p)
                               + 2 * elem img p * og_weight og_pow c (hd p))
      \<and> ((\<lambda>t. upstream_loss MASK mask_idx og_sum og_pow (img\<lparr>elem := (elem img)(p := t)\<rparr>))
            has_field_derivative elem g p) (at (elem img p))"
proof -
  note shp = valid_shape[OF assms(1,2)]
  have ok2: "shape_ok (shape img) = Inr True" using assms(1,3) by simp
  from assms(5) obtain pb pq where pdef: "p = pb # pq" and pb: "pb < shape mask_idx ! 0"
    and pq: "in_bounds [1, shape mask_idx ! 3, shape mask_idx ! 3] pq"
    by (subst (asm) shp) (auto simp: in_bounds_Cons)
  from pq have s: "0 < shape mask_idx ! 3"
    by (auto simp: in_bounds_Cons)
  have pB: "in_bounds [min (shape mask_idx ! 0) (shape img ! 0), 1, shape mask_idx ! 3,
                       shape mask_idx ! 3] p"
    using pb pq by (simp add: pdef assms(3))
  obtain self node g where
    gr: "SplitMask_grad (mask_idx, img) (og_sum, og_pow, og_count)
           = Inr (zeros_like mask_idx, self, node)"
    and th: "SplitMaskGrad_thunk (get_function MASK) self node g0 = Inr g"
    and gs: "shape g = [min (shape mask_idx ! 0) (shape img ! 0), 1, shape mask_idx ! 3,
                        shape mask_idx ! 3]"
    and ge: "elem g = fold (grad_pixel MASK
                          (case og_sum of DisconnectedType \<Rightarrow> None | Connected gs \<Rightarrow> Some gs)
                          (case og_pow of DisconnectedType \<Rightarrow> None | Connected gp \<Rightarrow> Some gp)
                          mask_idx img)
                       (indices [min (shape mask_idx ! 0) (shape img ! 0), 1,
                                 shape mask_idx ! 3, shape mask_idx ! 3])
                       (\<lambda>p. 0)"
    using SplitMaskGrad_spec_kernel[OF assms(1) ok2 s assms(4), of og_count MASK g0] by blast
  have gshape: "shape g = shape img"
    using shp by (simp add: gs assms(3))
  have gp: "elem g p = (case classifier MASK (elem mask_idx p) of
                      None \<Rightarrow> 0
                    | Some c \<Rightarrow> og_weight og_sum c (hd p)
                               + 2 * elem img p * og_weight og_pow c (hd p))"
    unfolding ge fold_grad_pixel_elem[OF pB] grad_contrib_def og_weight_option
    by (rule refl)
  obtain A where L: "\<And>t. upstream_loss MASK mask_idx og_sum og_pow (img\<lparr>elem := (elem img)(p := t)\<rparr>)
           = A + (case classifier MASK (elem mask_idx p) of None \<Rightarrow> 0
                  | Some c \<Rightarrow> og_weight og_sum c (hd p)) * t
               + (case classifier MASK (elem mask_idx p) of None \<Rightarrow> 0
                  | Some c \<Rightarrow> og_weight og_pow c (hd p)) * t\<^sup>2"
    using upstream_loss_point[OF assms(1,2,3,5), of MASK og_sum og_pow] by blast
  have "((\<lambda>t. upstream_loss MASK mask_idx og_sum og_pow (img\<lparr>elem := (elem img)(p := t)\<rparr>))
            has_field_derivative
          ((case classifier MASK (elem mask_idx p) of None \<Rightarrow> 0
            | Some c \<Rightarrow> og_weight og_sum c (hd p))
           + 2 * elem img p * (case classifier MASK (elem mask_idx p) of None \<Rightarrow> 0
                               | Some c \<Rightarrow> og_weight og_pow c (hd p)))) (at (elem img p))"
    unfolding L by (rule quadratic_DERIV)
  also have "(case classifier MASK (elem mask_idx p) of None \<Rightarrow> 0
            | Some c \<Rightarrow> og_weight og_sum c (hd p))
           + 2 * elem img p * (case classifier MASK (elem mask_idx p) of None \<Rightarrow> 0
                               | Some c \<Rightarrow> og_weight og_pow c (hd p)) = elem g p"
    unfolding gp by (simp split: option.split)
  finally have "((\<lambda>t. upstream_loss MASK mask_idx og_sum og_pow (img\<lparr>elem := (elem img)(p := t)\<rparr>))
            has_field_derivative elem g p) (at (elem img p))" .
  with gr th gshape gp show ?thesis by blast
qed

theorem backward_is_analytic_gradient_witness:
  "\<exists>self node g.
      SplitMask_grad (labels_4x4, image_4x4)
          (Connected \<lparr>shape = [2, 1], elem = (\<lambda>p. 5)\<rparr>,
           Connected \<lparr>shape = [2, 1], elem = (\<lambda>p. 7)\<rparr>, DisconnectedType)
        = Inr (zeros_like labels_4x4, self, node)
      \<and> SplitMaskGrad_thunk (get_function MASK_AB) self node None = Inr g
      \<and> shape g = [1, 1, 4, 4]
      \<and> elem g [0, 0, 2, 2] = 47
      \<and> ((\<lambda>t. upstream_loss MASK_AB labels_4x4
                  (Connected \<lparr>shape = [2, 1], elem = (\<lambda>p. 5)\<rparr>)
                  (Connected \<lparr>shape = [2, 1], elem = (\<lambda>p. 7)\<rparr>)
                  (image_4x4\<lparr>elem := (elem image_4x4)([0, 0, 2, 2] := t)\<rparr>))
            has_field_derivative 47) (at 3)"
proof -
  have a: "shape_ok (shape labels_4x4) = Inr True" "length (shape labels_4x4) = 4"
    "shape image_4x4 = shape labels_4x4"
    "Connected \<lparr>shape = [2, 1], elem = (\<lambda>p. 5)\<rparr> \<noteq> DisconnectedType
     \<or> Connected \<lparr>shape = [2, 1], elem = (\<lambda>p. 7)\<rparr> \<noteq> DisconnectedType"
    "in_bounds (shape labels_4x4) [0, 0, 2, 2]"
    by (simp_all add: shape_ok_def)
  have c: "classifier MASK_AB (elem labels_4x4 [0, 0, 2, 2]) = Some 1"
    by (simp add: labels_4x4_def array4_def MASK_AB_def)
  have v: "elem image_4x4 [0, 0, 2, 2] = 3"
    by (simp add: image_4x4_def array4_def)
  show ?thesis
    using backward_is_analytic_gradient[OF a, of DisconnectedType MASK_AB None]
    by (auto simp: c v og_weight_def)
qed

end
